theory Spec2Isabelle
  imports Main "HOL-Library.Word" "HOL-Library.Sublist"
begin

unbundle bit_operations_syntax

section \<open>Data model\<close>

text \<open>
  The class \<open>Common\<close> of \<open>packages/common/src/index.ts\<close> answers queries about a
  chain's hardfork table, the parameters of hardforks and EIPs, and fork hashes.
  Every \<open>throw new Error(...)\<close> of the source is a constructor of \<open>error\<close>; a method
  that can throw returns \<open>error + 'a\<close> with \<open>Inl\<close> the error.
\<close>

datatype error =
    HardforkNotSupported string  \<comment> \<open>Hardfork h not set as supported in supportedHardforks\<close>
  | HardforkNotDefined string    \<comment> \<open>Hardfork h not defined for chain\<close>
  | EIPNotSupported nat          \<comment> \<open>eip not supported (the spec's UnknownEIP)\<close>
  | EIPCannotBeActivated nat     \<comment> \<open>eip cannot be activated on hardfork (HardforkTooOld)\<close>
  | TopicNotDefined string       \<comment> \<open>Topic t not defined (UnknownTopic)\<close>
  | NoForkHash                   \<comment> \<open>No fork hash calculation possible for non-applied or future hardfork\<close>

type_synonym byte = "8 word"

text \<open>
  A record of the chain's hardfork table. The interfaces of \<open>./types\<close> are not part of
  the source file; the fields are those of the specification's data model: \<open>block\<close> is
  a non-negative integer or \<open>null\<close> (\<open>None\<close>), \<open>forkHash\<close> is an optional hex string
  (\<open>None\<close> when the property is absent, that is \<open>undefined\<close>).
\<close>

record Hardfork =
  hf_name :: string
  hf_block :: "nat option"
  hf_forkHash :: "string option"

record GenesisBlock =
  hash :: string

record Chain =
  chain_genesis :: GenesisBlock
  chain_hardforks :: "Hardfork list"

text \<open>The private fields \<open>_chainParams\<close>, \<open>_hardfork\<close>, \<open>_supportedHardforks\<close>, \<open>_eips\<close>.\<close>

record Common =
  c_chainParams :: Chain
  c_hardfork :: string
  c_supportedHardforks :: "string list"
  c_eips :: "nat list"

text \<open>\<open>interface hardforkOptions\<close>: both properties are optional (\<open>None\<close> is \<open>undefined\<close>).\<close>

record hardforkOptions =
  onlySupported :: "bool option"
  onlyActive :: "bool option"

text \<open>
  The imported datasets \<open>EIPs\<close> (\<open>./eips\<close>) and \<open>HARDFORK_CHANGES\<close> (\<open>./hardforks\<close>) are
  parameters of the model. A topic maps parameter names to entries; of an entry only
  its value \<open>v\<close> is read, which may be \<open>null\<close> (\<open>None\<close>). A hardfork file either lists
  EIPs (it has the property \<open>eips\<close>) or inlines its parameters.
\<close>

type_synonym 'v topics = "string \<rightharpoonup> (string \<rightharpoonup> 'v option)"

record 'v EIP =
  minimumHardfork :: string
  eip_topics :: "'v topics"

datatype 'v HardforkChanges =
    EIPReferencing "nat list"
  | ParameterInlining "'v topics"

record 'v Dataset =
  EIPs :: "nat \<rightharpoonup> 'v EIP"
  HARDFORK_CHANGES :: "(string \<times> 'v HardforkChanges) list"

section \<open>Accessors and hardfork selection\<close>

definition genesis :: "Common \<Rightarrow> GenesisBlock" where
  "genesis c = chain_genesis (c_chainParams c)"

definition hardforks :: "Common \<Rightarrow> Hardfork list" where
  "hardforks c = chain_hardforks (c_chainParams c)"

definition hardfork :: "Common \<Rightarrow> string" where
  "hardfork c = c_hardfork c"

definition eips :: "Common \<Rightarrow> nat list" where
  "eips c = c_eips c"

text \<open>\<open>_isSupportedHardfork\<close>: an empty allow-list supports every hardfork.\<close>

definition isSupportedHardfork :: "Common \<Rightarrow> string \<Rightarrow> bool" where
  "isSupportedHardfork c h =
     (if length (c_supportedHardforks c) > 0
      then list_ex (\<lambda>supportedHf. h = supportedHf) (c_supportedHardforks c)
      else True)"

text \<open>
  \<open>_chooseHardfork(hardfork?, onlySupported = true)\<close>. The test \<open>!hardfork\<close> holds for
  \<open>undefined\<close>, \<open>null\<close> (both \<open>None\<close>) and for the empty string; an \<open>undefined\<close> second
  argument (\<open>None\<close>) takes the default \<open>true\<close>.
\<close>

definition chooseHardfork :: "Common \<Rightarrow> string option \<Rightarrow> bool option \<Rightarrow> error + string" where
  "chooseHardfork c hardfork_arg onlySupported_arg =
     (let onlySupported' = (case onlySupported_arg of None \<Rightarrow> True | Some b \<Rightarrow> b) in
      case hardfork_arg of
        None \<Rightarrow> Inr (c_hardfork c)
      | Some h \<Rightarrow>
          if h = [] then Inr (c_hardfork c)
          else if onlySupported' \<and> \<not> isSupportedHardfork c h then Inl (HardforkNotSupported h)
          else Inr h)"

text \<open>\<open>_getHardfork\<close>: the first record of the table with the name, or an error.\<close>

definition getHardfork :: "Common \<Rightarrow> string \<Rightarrow> error + Hardfork" where
  "getHardfork c h =
     (case find (\<lambda>hf. hf_name hf = h) (hardforks c) of
        Some hf \<Rightarrow> Inr hf
      | None \<Rightarrow> Inl (HardforkNotDefined h))"

section \<open>Hardfork timeline\<close>

text \<open>
  \<open>activeHardforks(blockNumber?, opts?)\<close>: the loop over the table, with its
  \<open>continue\<close> and \<open>break\<close>; \<open>acc\<close> is the array \<open>activeHardforks\<close> being filled.
\<close>

definition opts_or_empty :: "hardforkOptions option \<Rightarrow> hardforkOptions" where
  "opts_or_empty opts =
     (case opts of None \<Rightarrow> \<lparr>onlySupported = None, onlyActive = None\<rparr> | Some o' \<Rightarrow> o')"

fun activeHardforks_loop ::
  "Common \<Rightarrow> nat option \<Rightarrow> hardforkOptions \<Rightarrow> Hardfork list \<Rightarrow> Hardfork list \<Rightarrow> Hardfork list" where
  "activeHardforks_loop c blockNumber opts acc [] = acc"
| "activeHardforks_loop c blockNumber opts acc (hf # hfs) =
     (case hf_block hf of
        None \<Rightarrow> activeHardforks_loop c blockNumber opts acc hfs
      | Some b \<Rightarrow>
          if (case blockNumber of None \<Rightarrow> False | Some n \<Rightarrow> n < b) then acc
          else if onlySupported opts = Some True \<and> \<not> isSupportedHardfork c (hf_name hf)
            then activeHardforks_loop c blockNumber opts acc hfs
          else activeHardforks_loop c blockNumber opts (acc @ [hf]) hfs)"

definition activeHardforks ::
  "Common \<Rightarrow> nat option \<Rightarrow> hardforkOptions option \<Rightarrow> Hardfork list" where
  "activeHardforks c blockNumber opts =
     activeHardforks_loop c blockNumber (opts_or_empty opts) [] (hardforks c)"

text \<open>
  \<open>hardforkGteHardfork(hardfork1, hardfork2, opts?)\<close>: the loop records the index of
  each name in \<open>posHf1\<close> and \<open>posHf2\<close>, both \<open>-1\<close> at the start.
\<close>

fun gte_loop :: "Hardfork list \<Rightarrow> string \<Rightarrow> string \<Rightarrow> int \<Rightarrow> int \<Rightarrow> int \<Rightarrow> int \<times> int" where
  "gte_loop [] hardfork1 hardfork2 index posHf1 posHf2 = (posHf1, posHf2)"
| "gte_loop (hf # hfs) hardfork1 hardfork2 index posHf1 posHf2 =
     gte_loop hfs hardfork1 hardfork2 (index + 1)
       (if hf_name hf = hardfork1 then index else posHf1)
       (if hf_name hf = hardfork2 then index else posHf2)"

definition hardforkGteHardfork ::
  "Common \<Rightarrow> string option \<Rightarrow> string \<Rightarrow> hardforkOptions option \<Rightarrow> error + bool" where
  "hardforkGteHardfork c hardfork1 hardfork2 opts =
     (let opts' = opts_or_empty opts;
          onlyActive' = (case onlyActive opts' of None \<Rightarrow> False | Some b \<Rightarrow> b) in
      case chooseHardfork c hardfork1 (onlySupported opts') of
        Inl e \<Rightarrow> Inl e
      | Inr h1 \<Rightarrow>
          let hfs = (if onlyActive' then activeHardforks c None (Some opts') else hardforks c);
              pos = gte_loop hfs h1 hardfork2 0 (- 1) (- 1)
          in Inr (fst pos \<ge> snd pos))"

definition gteHardfork :: "Common \<Rightarrow> string \<Rightarrow> hardforkOptions option \<Rightarrow> error + bool" where
  "gteHardfork c h opts = hardforkGteHardfork c None h opts"

text \<open>\<open>hardforkBlock(hardfork?)\<close>.\<close>

definition hardforkBlock :: "Common \<Rightarrow> string option \<Rightarrow> error + nat option" where
  "hardforkBlock c hardfork_arg =
     (case chooseHardfork c hardfork_arg (Some False) of
        Inl e \<Rightarrow> Inl e
      | Inr h \<Rightarrow> (case getHardfork c h of Inl e \<Rightarrow> Inl e | Inr hf \<Rightarrow> Inr (hf_block hf)))"

text \<open>
  \<open>nextHardforkBlock(hardfork?)\<close>. JavaScript's \<open>></\<close> on \<open>number | null\<close> converts
  \<open>null\<close> to \<open>0\<close>; the \<open>reduce\<close> is a left fold from \<open>null\<close>.
\<close>

definition js_number :: "nat option \<Rightarrow> nat" where
  "js_number a = (case a of None \<Rightarrow> 0 | Some x \<Rightarrow> x)"

definition js_gt :: "nat option \<Rightarrow> nat option \<Rightarrow> bool" where
  "js_gt a b = (js_number a > js_number b)"

definition nextHardforkBlock :: "Common \<Rightarrow> string option \<Rightarrow> error + nat option" where
  "nextHardforkBlock c hardfork_arg =
     (case chooseHardfork c hardfork_arg (Some False) of
        Inl e \<Rightarrow> Inl e
      | Inr h \<Rightarrow>
          (case hardforkBlock c (Some h) of
             Inl e \<Rightarrow> Inl e
           | Inr hfBlock \<Rightarrow>
               Inr (foldl (\<lambda>acc hf. if js_gt (hf_block hf) hfBlock \<and> acc = None
                                     then hf_block hf else acc)
                      None (hardforks c))))"

section \<open>Parameter resolution\<close>

text \<open>
  \<open>paramByEIP(topic, name, eip)\<close>: \<open>null\<close> (\<open>None\<close>) when the topic does not define the
  name, else the entry's \<open>v\<close>.
\<close>

definition paramByEIP :: "'v Dataset \<Rightarrow> string \<Rightarrow> string \<Rightarrow> nat \<Rightarrow> error + 'v option" where
  "paramByEIP ds topic pname eip =
     (case EIPs ds eip of
        None \<Rightarrow> Inl (EIPNotSupported eip)
      | Some eipParams \<Rightarrow>
          (case eip_topics eipParams topic of
             None \<Rightarrow> Inl (TopicNotDefined topic)
           | Some t \<Rightarrow> (case t pname of None \<Rightarrow> Inr None | Some v \<Rightarrow> Inr v)))"

text \<open>The inner loop of \<open>paramByHardfork\<close> over the EIPs of an EIP-referencing file.\<close>

fun hfEIPs_loop ::
  "'v Dataset \<Rightarrow> string \<Rightarrow> string \<Rightarrow> 'v option \<Rightarrow> nat list \<Rightarrow> error + 'v option" where
  "hfEIPs_loop ds topic pname val [] = Inr val"
| "hfEIPs_loop ds topic pname val (eip # hfEIPs) =
     (case paramByEIP ds topic pname eip of
        Inl e \<Rightarrow> Inl e
      | Inr valueEIP \<Rightarrow>
          hfEIPs_loop ds topic pname (if valueEIP \<noteq> None then valueEIP else val) hfEIPs)"

text \<open>One hardfork file of the walk: the new \<open>value\<close>, or the error thrown.\<close>

definition hfChanges_step ::
  "'v Dataset \<Rightarrow> string \<Rightarrow> string \<Rightarrow> 'v option \<Rightarrow> 'v HardforkChanges \<Rightarrow> error + 'v option" where
  "hfChanges_step ds topic pname val changes =
     (case changes of
        EIPReferencing hfEIPs \<Rightarrow> hfEIPs_loop ds topic pname val hfEIPs
      | ParameterInlining params \<Rightarrow>
          (case params topic of
             None \<Rightarrow> Inl (TopicNotDefined topic)
           | Some t \<Rightarrow> (case t pname of None \<Rightarrow> Inr val | Some v \<Rightarrow> Inr v)))"

text \<open>The loop over \<open>HARDFORK_CHANGES\<close>, left by \<open>break\<close> after the target hardfork.\<close>

fun paramByHardfork_loop ::
  "'v Dataset \<Rightarrow> string \<Rightarrow> string \<Rightarrow> string \<Rightarrow> 'v option \<Rightarrow>
   (string \<times> 'v HardforkChanges) list \<Rightarrow> error + 'v option" where
  "paramByHardfork_loop ds topic pname h val [] = Inr val"
| "paramByHardfork_loop ds topic pname h val (hfChanges # rest) =
     (case hfChanges_step ds topic pname val (snd hfChanges) of
        Inl e \<Rightarrow> Inl e
      | Inr val' \<Rightarrow>
          if fst hfChanges = h then Inr val'
          else paramByHardfork_loop ds topic pname h val' rest)"

definition paramByHardfork ::
  "'v Dataset \<Rightarrow> Common \<Rightarrow> string \<Rightarrow> string \<Rightarrow> string \<Rightarrow> error + 'v option" where
  "paramByHardfork ds c topic pname h =
     (case chooseHardfork c (Some h) None of
        Inl e \<Rightarrow> Inl e
      | Inr h' \<Rightarrow> paramByHardfork_loop ds topic pname h' None (HARDFORK_CHANGES ds))"

text \<open>\<open>param(topic, name)\<close>: the loop over the active EIPs, then the hardfork walk.\<close>

fun param_loop ::
  "'v Dataset \<Rightarrow> Common \<Rightarrow> string \<Rightarrow> string \<Rightarrow> nat list \<Rightarrow> error + 'v option" where
  "param_loop ds c topic pname [] = paramByHardfork ds c topic pname (c_hardfork c)"
| "param_loop ds c topic pname (eip # rest) =
     (case paramByEIP ds topic pname eip of
        Inl e \<Rightarrow> Inl e
      | Inr val \<Rightarrow> if val \<noteq> None then Inr val else param_loop ds c topic pname rest)"

definition param :: "'v Dataset \<Rightarrow> Common \<Rightarrow> string \<Rightarrow> string \<Rightarrow> error + 'v option" where
  "param ds c topic pname = param_loop ds c topic pname (c_eips c)"

section \<open>Setting the active EIPs\<close>

text \<open>
  \<open>setEIPs(eips = [])\<close>: the validation loop returns the error it throws, if any; the
  assignment \<open>this._eips = eips\<close> is reached only after the loop. The method returns
  its outcome together with the Context after the call.
\<close>

fun setEIPs_loop :: "'v Dataset \<Rightarrow> Common \<Rightarrow> nat list \<Rightarrow> error option" where
  "setEIPs_loop ds c [] = None"
| "setEIPs_loop ds c (eip # rest) =
     (case EIPs ds eip of
        None \<Rightarrow> Some (EIPNotSupported eip)
      | Some eipParams \<Rightarrow>
          (case gteHardfork c (minimumHardfork eipParams) None of
             Inl e \<Rightarrow> Some e
           | Inr minHF \<Rightarrow>
               if \<not> minHF then Some (EIPCannotBeActivated eip)
               else setEIPs_loop ds c rest))"

definition setEIPs :: "'v Dataset \<Rightarrow> Common \<Rightarrow> nat list option \<Rightarrow> (error + unit) \<times> Common" where
  "setEIPs ds c eips_arg =
     (let eips' = (case eips_arg of None \<Rightarrow> [] | Some l \<Rightarrow> l) in
      case setEIPs_loop ds c eips' of
        Some e \<Rightarrow> (Inl e, c)
      | None \<Rightarrow> (Inr (), c\<lparr>c_eips := eips'\<rparr>))"

section \<open>Fork hash\<close>

text \<open>
  \<open>Number.prototype.toString(16)\<close> on a non-negative integer, \<open>String.prototype.padStart\<close>
  and Node's \<open>Buffer.from(s, 'hex')\<close>, which decodes pairs of hexadecimal digits and stops
  at the first pair that is not one (a trailing single digit is dropped).
\<close>

definition hexDigit :: "nat \<Rightarrow> char" where
  "hexDigit d = ''0123456789abcdef'' ! d"

fun toString16 :: "nat \<Rightarrow> string" where
  "toString16 n =
     (if n < 16 then [hexDigit n] else toString16 (n div 16) @ [hexDigit (n mod 16)])"

declare toString16.simps [simp del]

definition padStart :: "nat \<Rightarrow> char \<Rightarrow> string \<Rightarrow> string" where
  "padStart targetLength ch s = replicate (targetLength - length s) ch @ s"

definition hexval :: "char \<Rightarrow> nat option" where
  "hexval ch =
     (let n = (of_char ch :: nat) in
      if 48 \<le> n \<and> n \<le> 57 then Some (n - 48)
      else if 97 \<le> n \<and> n \<le> 102 then Some (n - 87)
      else if 65 \<le> n \<and> n \<le> 70 then Some (n - 55)
      else None)"

fun Buffer_from_hex :: "string \<Rightarrow> byte list" where
  "Buffer_from_hex (a # b # rest) =
     (case hexval a of
        None \<Rightarrow> []
      | Some x \<Rightarrow>
          (case hexval b of
             None \<Rightarrow> []
           | Some y \<Rightarrow> of_nat (16 * x + y) # Buffer_from_hex rest))"
| "Buffer_from_hex [a] = []"
| "Buffer_from_hex [] = []"

text \<open>
  \<open>buf\<close> of the package \<open>crc-32\<close>: the standard CRC-32 (reflected polynomial
  \<open>0xEDB88320\<close>, initial value and final complement \<open>0xFFFFFFFF\<close>), returned as a signed
  32-bit integer. \<open>x >>> 0\<close> reads a number as an unsigned 32-bit integer.
\<close>

definition crc_shift :: "32 word \<Rightarrow> 32 word" where
  "crc_shift crc = (if bit crc 0 then drop_bit 1 crc XOR 0xEDB88320 else drop_bit 1 crc)"

definition crc_update :: "32 word \<Rightarrow> byte \<Rightarrow> 32 word" where
  "crc_update crc b =
     crc_shift (crc_shift (crc_shift (crc_shift
       (crc_shift (crc_shift (crc_shift (crc_shift (crc XOR ucast b))))))))"

definition crc32 :: "byte list \<Rightarrow> 32 word" where
  "crc32 bs = NOT (foldl crc_update 0xFFFFFFFF bs)"

definition crc32Buffer :: "byte list \<Rightarrow> int" where
  "crc32Buffer bs = sint (crc32 bs)"

definition urshift0 :: "int \<Rightarrow> nat" where
  "urshift0 x = nat (x mod 2 ^ 32)"

text \<open>
  \<open>_calcForkHash(hardfork)\<close>: the loop appends to \<open>hfBuffer\<close> and keeps \<open>prevBlock\<close>,
  which starts at \<open>0\<close>; it is left by \<open>break\<close> at the record named \<open>hardfork\<close>.
\<close>

fun calcForkHash_loop :: "string \<Rightarrow> byte list \<Rightarrow> nat option \<Rightarrow> Hardfork list \<Rightarrow> byte list" where
  "calcForkHash_loop h hfBuffer prevBlock [] = hfBuffer"
| "calcForkHash_loop h hfBuffer prevBlock (hf # hfs) =
     (let hfBuffer' =
        (case hf_block hf of
           None \<Rightarrow> hfBuffer
         | Some block \<Rightarrow>
             if block \<noteq> 0 \<and> Some block \<noteq> prevBlock
             then hfBuffer @ Buffer_from_hex (padStart 16 (CHR ''0'') (toString16 block))
             else hfBuffer)
      in if hf_name hf = h then hfBuffer'
         else calcForkHash_loop h hfBuffer' (hf_block hf) hfs)"

definition calcForkHash :: "Common \<Rightarrow> string \<Rightarrow> string" where
  "calcForkHash c h =
     (let genesis_bytes = Buffer_from_hex (drop 2 (hash (genesis c)));
          hfBuffer = calcForkHash_loop h [] (Some 0) (hardforks c);
          inputBuffer = genesis_bytes @ hfBuffer;
          forkhash = toString16 (urshift0 (crc32Buffer inputBuffer))
      in ''0x'' @ forkhash)"

text \<open>\<open>forkHash(hardfork?)\<close> and \<open>hardforkForForkHash(forkHash)\<close>.\<close>

definition forkHash :: "Common \<Rightarrow> string option \<Rightarrow> error + string" where
  "forkHash c hardfork_arg =
     (case chooseHardfork c hardfork_arg (Some False) of
        Inl e \<Rightarrow> Inl e
      | Inr h \<Rightarrow>
          (case getHardfork c h of
             Inl e \<Rightarrow> Inl e
           | Inr data \<Rightarrow>
               if hf_block data = None then Inl NoForkHash
               else (case hf_forkHash data of
                       Some fh \<Rightarrow> Inr fh
                     | None \<Rightarrow> Inr (calcForkHash c h))))"

definition hardforkForForkHash :: "Common \<Rightarrow> string \<Rightarrow> Hardfork option" where
  "hardforkForForkHash c fh =
     (let resArray = filter (\<lambda>hf. hf_forkHash hf = Some fh) (hardforks c) in
      if length resArray = 1 then Some (hd resArray) else None)"

section \<open>Notions of the specification\<close>

text \<open>
  The position of a name in a hardfork sequence, counted from \<open>0\<close>: that of the last
  record with the name, \<open>-1\<close> when no record has it.
\<close>

fun timeline_pos :: "Hardfork list \<Rightarrow> string \<Rightarrow> int" where
  "timeline_pos [] h = - 1"
| "timeline_pos (hf # hfs) h =
     (let p = timeline_pos hfs h in
      if p \<ge> 0 then p + 1 else if hf_name hf = h then 0 else - 1)"

text \<open>
  The sequence \<open>hardforkGteHardfork\<close> compares positions in: the active hardforks
  under \<open>onlyActive\<close>, else the whole table.
\<close>

definition compared_hardforks :: "Common \<Rightarrow> hardforkOptions option \<Rightarrow> Hardfork list" where
  "compared_hardforks c opts =
     (if onlyActive (opts_or_empty opts) = Some True
      then activeHardforks c None (Some (opts_or_empty opts))
      else hardforks c)"

text \<open>
  A record is applied when its block is not \<open>null\<close>; its block does not exceed a
  given block number; it passes the support filter of the options.
\<close>

definition applied :: "Hardfork \<Rightarrow> bool" where
  "applied hf = (hf_block hf \<noteq> None)"

definition not_after :: "nat option \<Rightarrow> Hardfork \<Rightarrow> bool" where
  "not_after blockNumber hf =
     (case blockNumber of
        None \<Rightarrow> True
      | Some n \<Rightarrow> (case hf_block hf of None \<Rightarrow> True | Some b \<Rightarrow> b \<le> n))"

definition passes_filter :: "Common \<Rightarrow> hardforkOptions option \<Rightarrow> Hardfork \<Rightarrow> bool" where
  "passes_filter c opts hf =
     (if onlySupported (opts_or_empty opts) = Some True
      then isSupportedHardfork c (hf_name hf) else True)"

text \<open>
  The timeline record of a name (names are unique within a chain; the first record
  with the name is the one every method reads), and the non-null blocks of a table in
  timeline order.
\<close>

definition timeline_record :: "Common \<Rightarrow> string \<Rightarrow> Hardfork option" where
  "timeline_record c h = find (\<lambda>hf. hf_name hf = h) (hardforks c)"

definition nonnull_blocks :: "Hardfork list \<Rightarrow> nat list" where
  "nonnull_blocks hfs = List.map_filter hf_block hfs"

text \<open>
  An EIP of the dataset defines a topic; the non-null value it defines for a pair,
  if any; it is silent on a pair when it defines the topic but no non-null value for
  the name. An EIP validates when it is in the dataset and the current hardfork is not
  below its \<open>minimumHardfork\<close> in timeline order.
\<close>

definition eip_has_topic :: "'v Dataset \<Rightarrow> string \<Rightarrow> nat \<Rightarrow> bool" where
  "eip_has_topic ds topic e =
     (case EIPs ds e of None \<Rightarrow> False | Some d \<Rightarrow> eip_topics d topic \<noteq> None)"

definition eip_defines :: "'v Dataset \<Rightarrow> string \<Rightarrow> string \<Rightarrow> nat \<Rightarrow> 'v option" where
  "eip_defines ds topic pname e =
     (case EIPs ds e of
        None \<Rightarrow> None
      | Some d \<Rightarrow>
          (case eip_topics d topic of
             None \<Rightarrow> None
           | Some t \<Rightarrow> (case t pname of None \<Rightarrow> None | Some v \<Rightarrow> v)))"

definition eip_silent :: "'v Dataset \<Rightarrow> string \<Rightarrow> string \<Rightarrow> nat \<Rightarrow> bool" where
  "eip_silent ds topic pname e \<longleftrightarrow>
     eip_has_topic ds topic e \<and> eip_defines ds topic pname e = None"

definition eip_validates :: "'v Dataset \<Rightarrow> Common \<Rightarrow> nat \<Rightarrow> bool" where
  "eip_validates ds c e =
     (case EIPs ds e of
        None \<Rightarrow> False
      | Some d \<Rightarrow>
          timeline_pos (hardforks c) (c_hardfork c)
            \<ge> timeline_pos (hardforks c) (minimumHardfork d))"

text \<open>
  The records of a table up to and including the first one with a given name; a list
  paired with the element immediately preceding each element (none for the first). A
  record contributes its block to the fork hash when the block is neither \<open>null\<close> nor
  \<open>0\<close> and differs from the block value of the immediately preceding record. The
  8-byte big-endian encoding of a number.
\<close>

definition upto_target :: "string \<Rightarrow> Hardfork list \<Rightarrow> Hardfork list" where
  "upto_target h hfs =
     takeWhile (\<lambda>hf. hf_name hf \<noteq> h) hfs @ take 1 (dropWhile (\<lambda>hf. hf_name hf \<noteq> h) hfs)"

definition with_previous :: "'a list \<Rightarrow> ('a \<times> 'a option) list" where
  "with_previous xs = zip xs (None # map Some xs)"

definition hash_block :: "Hardfork \<times> Hardfork option \<Rightarrow> nat list" where
  "hash_block p =
     (case hf_block (fst p) of
        None \<Rightarrow> []
      | Some b \<Rightarrow>
          if b \<noteq> 0 \<and> (case snd p of None \<Rightarrow> True | Some q \<Rightarrow> hf_block q \<noteq> Some b)
          then [b] else [])"

definition hash_blocks :: "Hardfork list \<Rightarrow> nat list" where
  "hash_blocks hfs = concat (map hash_block (with_previous hfs))"

definition be8 :: "nat \<Rightarrow> byte list" where
  "be8 n =
     [of_nat (n div 2 ^ 56), of_nat (n div 2 ^ 48), of_nat (n div 2 ^ 40), of_nat (n div 2 ^ 32),
      of_nat (n div 2 ^ 24), of_nat (n div 2 ^ 16), of_nat (n div 2 ^ 8), of_nat n]"

text \<open>The number that a string of hexadecimal digits denotes.\<close>

definition hex_value :: "string \<Rightarrow> nat" where
  "hex_value s = foldl (\<lambda>a ch. 16 * a + (case hexval ch of None \<Rightarrow> 0 | Some d \<Rightarrow> d)) 0 s"

text \<open>
  Auxiliary functions of the proofs: the hexadecimal digits of a number at a fixed
  width, its big-endian bytes at a fixed length, the buffer the loop of
  \<open>_calcForkHash\<close> appends for a block, and the value of \<open>prevBlock\<close> after a given
  record (\<open>0\<close> before the first).
\<close>

fun fixhex :: "nat \<Rightarrow> nat \<Rightarrow> string" where
  "fixhex 0 n = []"
| "fixhex (Suc k) n = fixhex k (n div 16) @ [hexDigit (n mod 16)]"

fun be_bytes :: "nat \<Rightarrow> nat \<Rightarrow> byte list" where
  "be_bytes 0 n = []"
| "be_bytes (Suc k) n = be_bytes k (n div 256) @ [of_nat n]"

definition hfBlockBuffer :: "nat \<Rightarrow> byte list" where
  "hfBlockBuffer block = Buffer_from_hex (padStart 16 (CHR ''0'') (toString16 block))"

definition prev_block :: "Hardfork option \<Rightarrow> nat option" where
  "prev_block q = (case q of None \<Rightarrow> Some 0 | Some p \<Rightarrow> hf_block p)"

section \<open>Example data\<close>

text \<open>
  The table of the specification's scenario, with the genesis hash of the main
  network; the same Context with EIP 2200 active; a variant with precomputed fork
  hashes; a custom chain whose blocks are not in ascending order; one whose second
  record carries the fork hash of the first; the bytes of the genesis hash; and a small
  dataset of EIPs and hardfork files.
\<close>

definition mainnet_table :: "Hardfork list" where
  "mainnet_table =
     [\<lparr>hf_name = ''chainstart'', hf_block = Some 0, hf_forkHash = None\<rparr>,
      \<lparr>hf_name = ''homestead'', hf_block = Some 1150000, hf_forkHash = None\<rparr>,
      \<lparr>hf_name = ''byzantium'', hf_block = Some 4370000, hf_forkHash = None\<rparr>,
      \<lparr>hf_name = ''istanbul'', hf_block = None, hf_forkHash = None\<rparr>]"

definition mainnet_genesis :: GenesisBlock where
  "mainnet_genesis =
     \<lparr>hash = ''0xd4e56740f876aef8c010b86a40d5f56745a118d0906a34e69aec8c0db1cb8fa3''\<rparr>"

definition mainnet :: Common where
  "mainnet =
     \<lparr>c_chainParams = \<lparr>chain_genesis = mainnet_genesis, chain_hardforks = mainnet_table\<rparr>,
      c_hardfork = ''byzantium'', c_supportedHardforks = [], c_eips = []\<rparr>"

definition mainnet_2200 :: Common where
  "mainnet_2200 = mainnet\<lparr>c_eips := [2200]\<rparr>"

definition mainnet_precomputed :: Common where
  "mainnet_precomputed =
     mainnet\<lparr>c_chainParams :=
       \<lparr>chain_genesis = mainnet_genesis,
        chain_hardforks =
          [\<lparr>hf_name = ''chainstart'', hf_block = Some 0, hf_forkHash = Some ''0xfc64ec04''\<rparr>,
           \<lparr>hf_name = ''homestead'', hf_block = Some 1150000, hf_forkHash = Some ''0x97c2c34c''\<rparr>,
           \<lparr>hf_name = ''byzantium'', hf_block = Some 4370000, hf_forkHash = None\<rparr>,
           \<lparr>hf_name = ''istanbul'', hf_block = None, hf_forkHash = None\<rparr>]\<rparr>\<rparr>"

definition unsorted_chain :: Common where
  "unsorted_chain =
     mainnet\<lparr>c_chainParams :=
       \<lparr>chain_genesis = mainnet_genesis,
        chain_hardforks =
          [\<lparr>hf_name = ''chainstart'', hf_block = Some 0, hf_forkHash = None\<rparr>,
           \<lparr>hf_name = ''forkA'', hf_block = Some 10, hf_forkHash = None\<rparr>,
           \<lparr>hf_name = ''forkB'', hf_block = Some 5, hf_forkHash = None\<rparr>]\<rparr>\<rparr>"

definition example_dataset :: "int Dataset" where
  "example_dataset =
     \<lparr>EIPs =
        [2537 \<mapsto> \<lparr>minimumHardfork = ''chainstart'',
                   eip_topics = [''gasPrices'' \<mapsto> [''sstoreSet'' \<mapsto> Some 500]]\<rparr>,
         2200 \<mapsto> \<lparr>minimumHardfork = ''chainstart'',
                   eip_topics = [''gasPrices'' \<mapsto> Map.empty]\<rparr>,
         2315 \<mapsto> \<lparr>minimumHardfork = ''istanbul'', eip_topics = Map.empty\<rparr>],
      HARDFORK_CHANGES =
        [(''chainstart'', ParameterInlining [''gasPrices'' \<mapsto> [''sstoreSet'' \<mapsto> Some 200]]),
         (''homestead'', ParameterInlining [''gasPrices'' \<mapsto> Map.empty]),
         (''byzantium'', ParameterInlining [''gasConfig'' \<mapsto> Map.empty]),
         (''istanbul'', EIPReferencing [2537])]\<rparr>"

definition custom_chain :: Common where
  "custom_chain =
     mainnet\<lparr>c_chainParams :=
       \<lparr>chain_genesis = mainnet_genesis,
        chain_hardforks =
          [\<lparr>hf_name = ''chainstart'', hf_block = Some 0, hf_forkHash = None\<rparr>,
           \<lparr>hf_name = ''homestead'', hf_block = Some 0, hf_forkHash = Some ''0xfc64ec04''\<rparr>]\<rparr>\<rparr>"

definition mainnet_genesis_bytes :: "byte list" where
  "mainnet_genesis_bytes =
     [0xd4, 0xe5, 0x67, 0x40, 0xf8, 0x76, 0xae, 0xf8, 0xc0, 0x10, 0xb8, 0x6a, 0x40, 0xd5, 0xf5, 0x67,
      0x45, 0xa1, 0x18, 0xd0, 0x90, 0x6a, 0x34, 0xe6, 0x9a, 0xec, 0x8c, 0x0d, 0xb1, 0xcb, 0x8f, 0xa3]"

lemmas example_defs =
  mainnet_def mainnet_table_def mainnet_genesis_def example_dataset_def
  hardforks_def genesis_def eips_def hardfork_def

section \<open>Hardfork order\<close>

lemma timeline_pos_ge: "- 1 \<le> timeline_pos hfs h"
  by (induction hfs) (auto simp: Let_def)

lemma timeline_pos_absent: "timeline_pos hfs h = - 1 \<longleftrightarrow> h \<notin> hf_name ` set hfs"
proof (induction hfs)
  case Nil
  then show ?case by simp
next
  case (Cons hf hfs)
  have "- 1 \<le> timeline_pos hfs h" by (rule timeline_pos_ge)
  with Cons show ?case by (auto simp: Let_def)
qed

lemma timeline_pos_index:
  "distinct (map hf_name hfs) \<Longrightarrow> i < length hfs \<Longrightarrow> timeline_pos hfs (hf_name (hfs ! i)) = int i"
proof (induction hfs arbitrary: i)
  case Nil
  then show ?case by simp
next
  case (Cons hf hfs)
  show ?case
  proof (cases i)
    case 0
    have "hf_name hf \<notin> hf_name ` set hfs" using Cons.prems by auto
    then have "timeline_pos hfs (hf_name hf) = - 1" by (simp add: timeline_pos_absent)
    with 0 show ?thesis by simp
  next
    case (Suc j)
    then have "timeline_pos hfs (hf_name (hfs ! j)) = int j" using Cons by auto
    with Suc show ?thesis by (simp add: Let_def)
  qed
qed

lemma gte_loop_pos:
  "gte_loop hfs h1 h2 i p1 p2 =
     (if timeline_pos hfs h1 \<ge> 0 then i + timeline_pos hfs h1 else p1,
      if timeline_pos hfs h2 \<ge> 0 then i + timeline_pos hfs h2 else p2)"
proof (induction hfs arbitrary: i p1 p2)
  case Nil
  then show ?case by simp
next
  case (Cons hf hfs)
  have "- 1 \<le> timeline_pos hfs h1" "- 1 \<le> timeline_pos hfs h2"
    by (rule timeline_pos_ge)+
  then show ?case
    by (simp add: Cons.IH Let_def)
qed

lemma gte_loop_start:
  "gte_loop hfs h1 h2 0 (- 1) (- 1) = (timeline_pos hfs h1, timeline_pos hfs h2)"
proof -
  have "- 1 \<le> timeline_pos hfs h1" "- 1 \<le> timeline_pos hfs h2"
    by (rule timeline_pos_ge)+
  then show ?thesis
    by (auto simp: gte_loop_pos)
qed

lemma hardforkGteHardfork_pos:
  "chooseHardfork c hardfork1 (onlySupported (opts_or_empty opts)) = Inr h1 \<Longrightarrow>
   hardforkGteHardfork c hardfork1 h2 opts =
     Inr (timeline_pos (compared_hardforks c opts) h1 \<ge> timeline_pos (compared_hardforks c opts) h2)"
  by (cases "onlyActive (opts_or_empty opts)")
     (auto simp: hardforkGteHardfork_def compared_hardforks_def Let_def gte_loop_start)

lemma gteHardfork_pos:
  "gteHardfork c h None =
     Inr (timeline_pos (hardforks c) (c_hardfork c) \<ge> timeline_pos (hardforks c) h)"
proof -
  have "chooseHardfork c None (onlySupported (opts_or_empty None)) = Inr (c_hardfork c)"
    by (simp add: chooseHardfork_def)
  from hardforkGteHardfork_pos [OF this, of h]
  show ?thesis
    by (simp add: gteHardfork_def compared_hardforks_def opts_or_empty_def)
qed

text \<open>
  C9, as amended. When both compared names are absent from the compared sequence (the
  first name being the one \<open>_chooseHardfork\<close> selects, provided it passes the support
  check), both positions are \<open>-1\<close> and \<open>hardforkGteHardfork\<close> returns \<open>true\<close>, since
  \<open>-1 >= -1\<close> holds; so does the alias \<open>gteHardfork\<close>.
\<close>

theorem hardforkGteHardfork_both_absent:
  assumes "chooseHardfork c hardfork1 (onlySupported (opts_or_empty opts)) = Inr h1"
    and "h1 \<notin> hf_name ` set (compared_hardforks c opts)"
    and "h2 \<notin> hf_name ` set (compared_hardforks c opts)"
  shows "timeline_pos (compared_hardforks c opts) h1 = - 1 \<and>
         timeline_pos (compared_hardforks c opts) h2 = - 1 \<and>
         hardforkGteHardfork c hardfork1 h2 opts = Inr True \<and>
         (hardfork1 = None \<longrightarrow> gteHardfork c h2 opts = Inr True)"
proof -
  have p1: "timeline_pos (compared_hardforks c opts) h1 = - 1"
    using assms(2) by (simp add: timeline_pos_absent)
  have p2: "timeline_pos (compared_hardforks c opts) h2 = - 1"
    using assms(3) by (simp add: timeline_pos_absent)
  have g: "hardforkGteHardfork c hardfork1 h2 opts = Inr True"
    using hardforkGteHardfork_pos [OF assms(1)] p1 p2 by simp
  show ?thesis using p1 p2 g by (auto simp: gteHardfork_def)
qed

theorem hardforkGteHardfork_both_absent_witness:
  "chooseHardfork mainnet (Some ''foo'') (onlySupported (opts_or_empty None)) = Inr ''foo'' \<and>
   ''foo'' \<notin> hf_name ` set (compared_hardforks mainnet None) \<and>
   ''bar'' \<notin> hf_name ` set (compared_hardforks mainnet None) \<and>
   timeline_pos (compared_hardforks mainnet None) ''foo'' = - 1 \<and>
   hardforkGteHardfork mainnet (Some ''foo'') ''bar'' None = Inr True"
proof -
  have h1: "chooseHardfork mainnet (Some ''foo'') (onlySupported (opts_or_empty None)) = Inr ''foo''"
    by (simp add: example_defs chooseHardfork_def opts_or_empty_def isSupportedHardfork_def)
  have h2: "''foo'' \<notin> hf_name ` set (compared_hardforks mainnet None)"
    by (simp add: example_defs compared_hardforks_def opts_or_empty_def)
  have h3: "''bar'' \<notin> hf_name ` set (compared_hardforks mainnet None)"
    by (simp add: example_defs compared_hardforks_def opts_or_empty_def)
  show ?thesis
    using h1 h2 h3 hardforkGteHardfork_both_absent [OF h1 h2 h3] by simp
qed

text \<open>
  The claim as stated, that the result is \<open>false\<close>, fails on the scenario's table for
  the absent names \<open>foo\<close> and \<open>bar\<close>, and for the alias when the current hardfork is
  absent too.
\<close>

theorem hardforkGteHardfork_absent_counterexample:
  "''foo'' \<notin> hf_name ` set (hardforks mainnet) \<and>
   ''bar'' \<notin> hf_name ` set (hardforks mainnet) \<and>
   hardforkGteHardfork mainnet (Some ''foo'') ''bar'' None = Inr True \<and>
   hardforkGteHardfork mainnet (Some ''foo'') ''bar'' None \<noteq> Inr False \<and>
   c_hardfork (mainnet\<lparr>c_hardfork := ''berlin''\<rparr>) \<notin> hf_name ` set (hardforks mainnet) \<and>
   gteHardfork (mainnet\<lparr>c_hardfork := ''berlin''\<rparr>) ''bar'' None = Inr True"
  by (simp add: example_defs hardforkGteHardfork_def gteHardfork_def chooseHardfork_def
      opts_or_empty_def isSupportedHardfork_def)

section \<open>Active hardforks\<close>

lemma activeHardforks_loop_eq:
  "activeHardforks_loop c blockNumber (opts_or_empty opts) acc hfs =
     acc @ filter (passes_filter c opts) (takeWhile (not_after blockNumber) (filter applied hfs))"
proof (induction hfs arbitrary: acc)
  case Nil
  then show ?case by simp
next
  case (Cons hf hfs)
  show ?case
  proof (cases "hf_block hf")
    case None
    then show ?thesis by (simp add: Cons.IH applied_def)
  next
    case (Some b)
    have ap: "applied hf"
      by (simp add: applied_def Some)
    have na: "not_after blockNumber hf \<longleftrightarrow>
        \<not> (case blockNumber of None \<Rightarrow> False | Some n \<Rightarrow> n < b)"
      by (auto simp: not_after_def Some split: option.splits)
    have pf: "passes_filter c opts hf \<longleftrightarrow>
        \<not> (onlySupported (opts_or_empty opts) = Some True \<and> \<not> isSupportedHardfork c (hf_name hf))"
      by (simp add: passes_filter_def)
    show ?thesis
      using Some by (simp add: Cons.IH ap na pf)
  qed
qed

text \<open>
  C3. \<open>activeHardforks(blockNumber, opts)\<close> takes the applied records of the table (those
  with a non-null block) in timeline order, stops before the first of them whose block
  exceeds \<open>blockNumber\<close>, and drops the records outside the support allow-list when
  \<open>opts.onlySupported\<close> is set. Without the support filter the result is a prefix of the
  applied records; in every case it is a subsequence of them, so timeline order is
  preserved. The result is a list, which may be empty.
\<close>

theorem activeHardforks_prefix:
  "activeHardforks c blockNumber opts =
     filter (passes_filter c opts)
       (takeWhile (not_after blockNumber) (filter applied (hardforks c))) \<and>
   (onlySupported (opts_or_empty opts) \<noteq> Some True \<longrightarrow>
      prefix (activeHardforks c blockNumber opts) (filter applied (hardforks c))) \<and>
   subseq (activeHardforks c blockNumber opts) (filter applied (hardforks c))"
proof -
  let ?app = "filter applied (hardforks c)"
  let ?pre = "takeWhile (not_after blockNumber) ?app"
  have eq: "activeHardforks c blockNumber opts = filter (passes_filter c opts) ?pre"
    by (simp add: activeHardforks_def activeHardforks_loop_eq)
  have pre: "prefix ?pre ?app"
    by (rule takeWhile_is_prefix)
  have "onlySupported (opts_or_empty opts) \<noteq> Some True \<Longrightarrow> filter (passes_filter c opts) ?pre = ?pre"
    by (simp add: passes_filter_def)
  then have p: "onlySupported (opts_or_empty opts) \<noteq> Some True \<longrightarrow>
      prefix (activeHardforks c blockNumber opts) ?app"
    using eq pre by simp
  have "subseq (filter (passes_filter c opts) ?pre) ?pre" by simp
  moreover have "subseq ?pre ?app" using pre by (rule prefix_imp_subseq)
  ultimately have "subseq (activeHardforks c blockNumber opts) ?app"
    using eq subseq_order.order_trans by metis
  with eq p show ?thesis by blast
qed

theorem activeHardforks_prefix_witness:
  "activeHardforks mainnet (Some 2000000) None = take 2 mainnet_table \<and>
   prefix (activeHardforks mainnet (Some 2000000) None) (filter applied (hardforks mainnet)) \<and>
   activeHardforks (mainnet\<lparr>c_supportedHardforks := [''byzantium'']\<rparr>) (Some 0)
     (Some \<lparr>onlySupported = Some True, onlyActive = None\<rparr>) = []"
proof -
  have a: "onlySupported (opts_or_empty None) \<noteq> Some True"
    by (simp add: opts_or_empty_def)
  have b: "prefix (activeHardforks mainnet (Some 2000000) None) (filter applied (hardforks mainnet))"
    using activeHardforks_prefix [of mainnet "Some 2000000" None] a by blast
  have c: "activeHardforks mainnet (Some 2000000) None = take 2 mainnet_table"
    by (simp add: example_defs activeHardforks_def opts_or_empty_def)
  have d: "activeHardforks (mainnet\<lparr>c_supportedHardforks := [''byzantium'']\<rparr>) (Some 0)
     (Some \<lparr>onlySupported = Some True, onlyActive = None\<rparr>) = []"
    by (simp add: example_defs activeHardforks_def opts_or_empty_def isSupportedHardfork_def)
  from b c d show ?thesis by simp
qed

section \<open>Fork hash: errors and precomputed values\<close>

lemma chooseHardfork_unchecked:
  "h \<noteq> [] \<Longrightarrow> chooseHardfork c (Some h) (Some False) = Inr h"
  by (simp add: chooseHardfork_def)

lemma getHardfork_record:
  "getHardfork c h = (case timeline_record c h of Some hf \<Rightarrow> Inr hf | None \<Rightarrow> Inl (HardforkNotDefined h))"
  by (simp add: getHardfork_def timeline_record_def)

text \<open>
  C5. For a hardfork name of the timeline (a non-empty string, the empty one being
  JavaScript's falsy value that selects the Context's hardfork), \<open>forkHash\<close> fails with
  \<open>NoForkHash\<close> exactly when the record's block is \<open>null\<close>; with a non-null block and
  a precomputed \<open>forkHash\<close> field, that value is returned as it is.
\<close>

theorem forkHash_NoForkHash_iff:
  assumes "h \<noteq> []" and "timeline_record c h = Some r"
  shows "(forkHash c (Some h) = Inl NoForkHash \<longleftrightarrow> hf_block r = None) \<and>
         (\<forall>fh. hf_block r \<noteq> None \<and> hf_forkHash r = Some fh \<longrightarrow> forkHash c (Some h) = Inr fh)"
  using assms
  by (auto simp: forkHash_def chooseHardfork_unchecked getHardfork_record split: option.splits)

theorem forkHash_NoForkHash_iff_witness:
  "timeline_record mainnet ''istanbul'' = Some (mainnet_table ! 3) \<and>
   hf_block (mainnet_table ! 3) = None \<and>
   forkHash mainnet (Some ''istanbul'') = Inl NoForkHash \<and>
   forkHash mainnet_precomputed (Some ''homestead'') = Inr ''0x97c2c34c'' \<and>
   forkHash mainnet_precomputed (Some ''homestead'') \<noteq> Inl NoForkHash"
proof -
  let ?r = "\<lparr>hf_name = ''homestead'', hf_block = Some 1150000, hf_forkHash = Some ''0x97c2c34c''\<rparr>"
  have n1: "''istanbul'' \<noteq> []" and n2: "''homestead'' \<noteq> []" by simp_all
  have r1: "timeline_record mainnet ''istanbul'' = Some (mainnet_table ! 3)"
    by (simp add: example_defs timeline_record_def)
  have b1: "hf_block (mainnet_table ! 3) = None"
    by (simp add: example_defs)
  have r2: "timeline_record mainnet_precomputed ''homestead'' = Some ?r"
    by (simp add: mainnet_precomputed_def example_defs timeline_record_def)
  from forkHash_NoForkHash_iff [OF n1 r1] b1
  have f1: "forkHash mainnet (Some ''istanbul'') = Inl NoForkHash" by blast
  from forkHash_NoForkHash_iff [OF n2 r2]
  have f2: "forkHash mainnet_precomputed (Some ''homestead'') = Inr ''0x97c2c34c''" by simp
  from r1 b1 f1 f2 show ?thesis by simp
qed

section \<open>Parameters by hardfork\<close>

lemma paramByHardfork_loop_append:
  "h \<notin> fst ` set pre \<Longrightarrow>
   paramByHardfork_loop ds topic pname h val (pre @ rest) =
     (case paramByHardfork_loop ds topic pname h val pre of
        Inl e \<Rightarrow> Inl e
      | Inr val' \<Rightarrow> paramByHardfork_loop ds topic pname h val' rest)"
  by (induction pre arbitrary: val) (auto split: sum.splits)

text \<open>
  C7. Let the walk of \<open>paramByHardfork\<close> reach a parameter-inlining file: the files
  before it precede the target and raised no error, leaving the value \<open>val\<close>. If the
  file does not define the topic, the call fails with \<open>TopicNotDefined\<close>. If it defines
  the topic but not the name, it raises no error and passes \<open>val\<close> on unchanged.
\<close>

theorem paramByHardfork_topic_missing:
  assumes "chooseHardfork c (Some h) None = Inr h'"
    and "HARDFORK_CHANGES ds = pre @ (n, ParameterInlining params) # post"
    and "h' \<notin> fst ` set pre"
    and "paramByHardfork_loop ds topic pname h' None pre = Inr val"
  shows "(params topic = None \<longrightarrow>
            paramByHardfork ds c topic pname h = Inl (TopicNotDefined topic)) \<and>
         (\<forall>t. params topic = Some t \<and> t pname = None \<longrightarrow>
            paramByHardfork ds c topic pname h =
              (if n = h' then Inr val else paramByHardfork_loop ds topic pname h' val post))"
  using assms
  by (auto simp: paramByHardfork_def paramByHardfork_loop_append hfChanges_step_def)

theorem paramByHardfork_topic_missing_witness:
  "chooseHardfork mainnet (Some ''byzantium'') None = Inr ''byzantium'' \<and>
   paramByHardfork_loop example_dataset ''gasPrices'' ''sstoreSet'' ''byzantium'' None
     (take 2 (HARDFORK_CHANGES example_dataset)) = Inr (Some 200) \<and>
   paramByHardfork example_dataset mainnet ''gasPrices'' ''sstoreSet'' ''byzantium''
     = Inl (TopicNotDefined ''gasPrices'') \<and>
   paramByHardfork example_dataset mainnet ''gasPrices'' ''sstoreSet'' ''homestead''
     = Inr (Some 200)"
proof -
  let ?hc = "HARDFORK_CHANGES example_dataset"
  have c1: "chooseHardfork mainnet (Some ''byzantium'') None = Inr ''byzantium''"
    by (simp add: example_defs chooseHardfork_def isSupportedHardfork_def)
  have d1: "?hc = take 2 ?hc @
      (''byzantium'', ParameterInlining [''gasConfig'' \<mapsto> Map.empty]) # drop 3 ?hc"
    by (simp add: example_defs)
  have p1: "''byzantium'' \<notin> fst ` set (take 2 ?hc)"
    by (simp add: example_defs)
  have w1: "paramByHardfork_loop example_dataset ''gasPrices'' ''sstoreSet'' ''byzantium'' None
     (take 2 ?hc) = Inr (Some 200)"
    by (simp add: example_defs hfChanges_step_def)
  have t1: "[''gasConfig'' \<mapsto> (Map.empty :: string \<rightharpoonup> int option)] ''gasPrices'' = None"
    by simp
  from paramByHardfork_topic_missing [OF c1 d1 p1 w1] t1
  have r1: "paramByHardfork example_dataset mainnet ''gasPrices'' ''sstoreSet'' ''byzantium''
     = Inl (TopicNotDefined ''gasPrices'')" by blast
  have c2: "chooseHardfork mainnet (Some ''homestead'') None = Inr ''homestead''"
    by (simp add: example_defs chooseHardfork_def isSupportedHardfork_def)
  have d2: "?hc = take 1 ?hc @
      (''homestead'', ParameterInlining [''gasPrices'' \<mapsto> Map.empty]) # drop 2 ?hc"
    by (simp add: example_defs)
  have p2: "''homestead'' \<notin> fst ` set (take 1 ?hc)"
    by (simp add: example_defs)
  have w2: "paramByHardfork_loop example_dataset ''gasPrices'' ''sstoreSet'' ''homestead'' None
     (take 1 ?hc) = Inr (Some 200)"
    by (simp add: example_defs hfChanges_step_def)
  have t2: "[''gasPrices'' \<mapsto> (Map.empty :: string \<rightharpoonup> int option)] ''gasPrices'' = Some Map.empty \<and>
      (Map.empty :: string \<rightharpoonup> int option) ''sstoreSet'' = None"
    by simp
  from paramByHardfork_topic_missing [OF c2 d2 p2 w2] t2
  have r2: "paramByHardfork example_dataset mainnet ''gasPrices'' ''sstoreSet'' ''homestead''
     = Inr (Some 200)" by simp
  from c1 w1 r1 r2 show ?thesis by simp
qed

section \<open>Parameters: EIPs before the timeline\<close>

lemma paramByEIP_silent:
  "paramByEIP ds topic pname e = Inr None \<longleftrightarrow> eip_silent ds topic pname e"
  by (auto simp: paramByEIP_def eip_silent_def eip_has_topic_def eip_defines_def
      split: option.splits)

lemma paramByEIP_defines:
  "eip_defines ds topic pname e = Some v \<Longrightarrow> paramByEIP ds topic pname e = Inr (Some v)"
  by (auto simp: paramByEIP_def eip_defines_def split: option.splits)

lemma paramByEIP_no_topic:
  "EIPs ds e = Some d \<Longrightarrow> eip_topics d topic = None \<Longrightarrow>
   paramByEIP ds topic pname e = Inl (TopicNotDefined topic)"
  by (simp add: paramByEIP_def)

lemma paramByEIP_timeline_free:
  "paramByEIP (ds\<lparr>HARDFORK_CHANGES := hc\<rparr>) topic pname e = paramByEIP ds topic pname e"
  by (simp add: paramByEIP_def)

lemma param_loop_skip:
  "\<forall>x\<in>set pre. eip_silent ds topic pname x \<Longrightarrow>
   param_loop ds c topic pname (pre @ rest) = param_loop ds c topic pname rest"
  by (induction pre) (auto simp: paramByEIP_silent [symmetric])

lemma param_loop_stop:
  "\<not> eip_silent ds topic pname e \<Longrightarrow>
   param_loop ds c topic pname (e # post) = paramByEIP ds topic pname e"
  by (auto simp: paramByEIP_silent [symmetric] split: sum.splits)

lemma param_loop_all_silent:
  assumes "\<forall>x\<in>set l. eip_silent ds topic pname x"
  shows "param_loop ds c topic pname l = paramByHardfork ds c topic pname (c_hardfork c)"
proof -
  have "param_loop ds c topic pname (l @ []) = param_loop ds c topic pname []"
    using assms by (rule param_loop_skip)
  then show ?thesis by simp
qed

lemma param_loop_first:
  assumes "\<forall>x\<in>set pre. eip_silent ds topic pname x"
    and "\<not> eip_silent ds topic pname e"
  shows "param_loop ds c topic pname (pre @ e # post) = paramByEIP ds topic pname e"
proof -
  have "param_loop ds c topic pname (pre @ e # post) = param_loop ds c topic pname (e # post)"
    using assms(1) by (rule param_loop_skip)
  also have "\<dots> = paramByEIP ds topic pname e"
    using assms(2) by (rule param_loop_stop)
  finally show ?thesis .
qed

text \<open>
  C1, as amended. The active EIPs are checked in the order of the Context's list. When
  every EIP listed before some EIP is silent on the pair (it defines the topic, but no
  non-null value for the name) and that EIP defines a non-null value, \<open>param\<close> returns
  this value and resolution stops there, whatever the hardfork timeline defines. When
  every active EIP is silent on the pair, \<open>param\<close> returns what the hardfork timeline
  yields for the current hardfork, and only then: at the first active EIP that is not
  silent, the result is that of \<open>paramByEIP\<close> on it (its non-null value, or the error
  \<open>EIPNotSupported\<close> or \<open>TopicNotDefined\<close> it throws) and does not depend on the
  hardfork files.
\<close>

theorem param_first_EIP_wins:
  assumes "c_eips c = pre @ rest"
    and "\<forall>x\<in>set pre. eip_silent ds topic pname x"
  shows "(\<forall>e post v. rest = e # post \<and> eip_defines ds topic pname e = Some v \<longrightarrow>
            param ds c topic pname = Inr (Some v)) \<and>
         (rest = [] \<longrightarrow>
            param ds c topic pname = paramByHardfork ds c topic pname (c_hardfork c)) \<and>
         (\<forall>e post. rest = e # post \<and> \<not> eip_silent ds topic pname e \<longrightarrow>
            param ds c topic pname = paramByEIP ds topic pname e) \<and>
         (\<forall>e post. rest = e # post \<and> EIPs ds e = None \<longrightarrow>
            param ds c topic pname = Inl (EIPNotSupported e)) \<and>
         (\<forall>e post d. rest = e # post \<and> EIPs ds e = Some d \<and> eip_topics d topic = None \<longrightarrow>
            param ds c topic pname = Inl (TopicNotDefined topic)) \<and>
         (\<forall>e post hc. rest = e # post \<and> \<not> eip_silent ds topic pname e \<longrightarrow>
            param (ds\<lparr>HARDFORK_CHANGES := hc\<rparr>) c topic pname = param ds c topic pname)"
proof -
  have stop: "param ds c topic pname = paramByEIP ds topic pname e"
    if "rest = e # post" and "\<not> eip_silent ds topic pname e" for e post
    using assms that by (simp add: param_def param_loop_first)
  have c1: "param ds c topic pname = Inr (Some v)"
    if "rest = e # post \<and> eip_defines ds topic pname e = Some v" for e post v
  proof -
    from that have "\<not> eip_silent ds topic pname e"
      by (simp add: eip_silent_def)
    with that have "param ds c topic pname = paramByEIP ds topic pname e"
      using stop by blast
    with that show ?thesis
      by (simp add: paramByEIP_defines)
  qed
  have c2: "param ds c topic pname = paramByHardfork ds c topic pname (c_hardfork c)"
    if "rest = []"
    using assms that by (simp add: param_def param_loop_all_silent)
  have c3: "param ds c topic pname = paramByEIP ds topic pname e"
    if "rest = e # post \<and> \<not> eip_silent ds topic pname e" for e post
    using that stop by blast
  have c4: "param ds c topic pname = Inl (EIPNotSupported e)"
    if "rest = e # post \<and> EIPs ds e = None" for e post
  proof -
    from that have "\<not> eip_silent ds topic pname e"
      by (simp add: eip_silent_def eip_has_topic_def)
    with that have "param ds c topic pname = paramByEIP ds topic pname e"
      using stop by blast
    with that show ?thesis
      by (simp add: paramByEIP_def)
  qed
  have c5: "param ds c topic pname = Inl (TopicNotDefined topic)"
    if "rest = e # post \<and> EIPs ds e = Some d \<and> eip_topics d topic = None" for e post d
  proof -
    from that have "\<not> eip_silent ds topic pname e"
      by (simp add: eip_silent_def eip_has_topic_def)
    with that have "param ds c topic pname = paramByEIP ds topic pname e"
      using stop by blast
    with that show ?thesis
      by (simp add: paramByEIP_no_topic)
  qed
  have c6: "param (ds\<lparr>HARDFORK_CHANGES := hc\<rparr>) c topic pname = param ds c topic pname"
    if "rest = e # post \<and> \<not> eip_silent ds topic pname e" for e post hc
  proof -
    let ?ds = "ds\<lparr>HARDFORK_CHANGES := hc\<rparr>"
    have same: "eip_silent ?ds topic pname x = eip_silent ds topic pname x" for x
      by (simp add: paramByEIP_silent [symmetric] paramByEIP_timeline_free)
    have "param ?ds c topic pname = paramByEIP ?ds topic pname e"
      using assms that by (simp add: param_def param_loop_first same)
    moreover have "param ds c topic pname = paramByEIP ds topic pname e"
      using that stop by blast
    ultimately show ?thesis
      by (simp add: paramByEIP_timeline_free)
  qed
  show ?thesis
    by (intro conjI allI impI) (erule c1 c2 c3 c4 c5 c6)+
qed

theorem param_first_EIP_wins_witness:
  "c_eips (mainnet\<lparr>c_hardfork := ''chainstart'', c_eips := [2200, 2537]\<rparr>) = [2200] @ [2537] \<and>
   eip_silent example_dataset ''gasPrices'' ''sstoreSet'' 2200 \<and>
   eip_defines example_dataset ''gasPrices'' ''sstoreSet'' 2537 = Some 500 \<and>
   paramByHardfork example_dataset (mainnet\<lparr>c_hardfork := ''chainstart'', c_eips := [2200, 2537]\<rparr>)
     ''gasPrices'' ''sstoreSet'' ''chainstart'' = Inr (Some 200) \<and>
   param example_dataset (mainnet\<lparr>c_hardfork := ''chainstart'', c_eips := [2200, 2537]\<rparr>)
     ''gasPrices'' ''sstoreSet'' = Inr (Some 500) \<and>
   param example_dataset (mainnet\<lparr>c_hardfork := ''chainstart'', c_eips := [2200]\<rparr>)
     ''gasPrices'' ''sstoreSet'' = Inr (Some 200) \<and>
   EIPs example_dataset 2315 = Some \<lparr>minimumHardfork = ''istanbul'', eip_topics = Map.empty\<rparr> \<and>
   param example_dataset (mainnet\<lparr>c_hardfork := ''chainstart'', c_eips := [2200, 2315]\<rparr>)
     ''gasPrices'' ''sstoreSet'' = Inl (TopicNotDefined ''gasPrices'') \<and>
   param example_dataset (mainnet\<lparr>c_hardfork := ''chainstart'', c_eips := [2200, 9999]\<rparr>)
     ''gasPrices'' ''sstoreSet'' = Inl (EIPNotSupported 9999)"
proof -
  let ?c = "mainnet\<lparr>c_hardfork := ''chainstart'', c_eips := [2200, 2537]\<rparr>"
  let ?ca = "mainnet\<lparr>c_hardfork := ''chainstart'', c_eips := [2200]\<rparr>"
  let ?cb = "mainnet\<lparr>c_hardfork := ''chainstart'', c_eips := [2200, 2315]\<rparr>"
  let ?cc = "mainnet\<lparr>c_hardfork := ''chainstart'', c_eips := [2200, 9999]\<rparr>"
  let ?d = "\<lparr>minimumHardfork = ''istanbul'', eip_topics = (Map.empty :: int topics)\<rparr>"
  have e: "c_eips ?c = [2200] @ [2537]" by simp
  have e0: "c_eips ?ca = [2200] @ []" by simp
  have e1: "c_eips ?cb = [2200] @ [2315]" by simp
  have e2: "c_eips ?cc = [2200] @ [9999]" by simp
  have s: "eip_silent example_dataset ''gasPrices'' ''sstoreSet'' 2200"
    by (simp add: example_defs eip_silent_def eip_has_topic_def eip_defines_def)
  have s': "\<forall>x\<in>set [2200]. eip_silent example_dataset ''gasPrices'' ''sstoreSet'' x"
    using s by simp
  have d: "eip_defines example_dataset ''gasPrices'' ''sstoreSet'' 2537 = Some 500"
    by (simp add: example_defs eip_defines_def)
  have t: "paramByHardfork example_dataset ?c ''gasPrices'' ''sstoreSet'' ''chainstart''
      = Inr (Some 200)"
    by (simp add: example_defs paramByHardfork_def chooseHardfork_def isSupportedHardfork_def
        hfChanges_step_def)
  have t0: "paramByHardfork example_dataset ?ca ''gasPrices'' ''sstoreSet'' (c_hardfork ?ca)
      = Inr (Some 200)"
    by (simp add: example_defs paramByHardfork_def chooseHardfork_def isSupportedHardfork_def
        hfChanges_step_def)
  have m: "EIPs example_dataset 2315 = Some ?d"
    by (simp add: example_defs)
  have n: "eip_topics ?d ''gasPrices'' = None" by simp
  have u: "EIPs example_dataset 9999 = None"
    by (simp add: example_defs)
  have r: "param example_dataset ?c ''gasPrices'' ''sstoreSet'' = Inr (Some 500)"
    using param_first_EIP_wins [OF e s', THEN conjunct1, rule_format,
        where e = 2537 and post = "[]" and v = 500] d
    by simp
  have "param example_dataset ?ca ''gasPrices'' ''sstoreSet''
      = paramByHardfork example_dataset ?ca ''gasPrices'' ''sstoreSet'' (c_hardfork ?ca)"
    using param_first_EIP_wins [OF e0 s', THEN conjunct2, THEN conjunct1] by simp
  with t0 have r0: "param example_dataset ?ca ''gasPrices'' ''sstoreSet'' = Inr (Some 200)"
    by simp
  have r1: "param example_dataset ?cb ''gasPrices'' ''sstoreSet'' = Inl (TopicNotDefined ''gasPrices'')"
    using param_first_EIP_wins [OF e1 s', THEN conjunct2, THEN conjunct2, THEN conjunct2,
        THEN conjunct2, THEN conjunct1, rule_format,
        where e = 2315 and post = "[]" and d = ?d] m n
    by simp
  have r2: "param example_dataset ?cc ''gasPrices'' ''sstoreSet'' = Inl (EIPNotSupported 9999)"
    using param_first_EIP_wins [OF e2 s', THEN conjunct2, THEN conjunct2, THEN conjunct2,
        THEN conjunct1, rule_format, where e = 9999 and post = "[]"] u
    by simp
  from e s d t r r0 m r1 r2 show ?thesis by simp
qed

text \<open>
  The claim as stated fails when an EIP listed before the defining one does not define
  the topic at all: EIP 2537 defines the pair as \<open>500\<close> and the timeline as \<open>200\<close>, but
  with EIP 2315, which has no topic \<open>gasPrices\<close>, listed first, \<open>param\<close> throws.
\<close>

theorem param_EIP_wins_counterexample:
  "2537 \<in> set (c_eips (mainnet\<lparr>c_hardfork := ''chainstart'', c_eips := [2315, 2537]\<rparr>)) \<and>
   eip_defines example_dataset ''gasPrices'' ''sstoreSet'' 2537 = Some 500 \<and>
   paramByHardfork example_dataset (mainnet\<lparr>c_hardfork := ''chainstart'', c_eips := [2315, 2537]\<rparr>)
     ''gasPrices'' ''sstoreSet'' ''chainstart'' = Inr (Some 200) \<and>
   param example_dataset (mainnet\<lparr>c_hardfork := ''chainstart'', c_eips := [2315, 2537]\<rparr>)
     ''gasPrices'' ''sstoreSet'' = Inl (TopicNotDefined ''gasPrices'')"
  by (simp add: example_defs eip_defines_def paramByHardfork_def chooseHardfork_def
      isSupportedHardfork_def hfChanges_step_def param_def paramByEIP_def)

text \<open>
  C10, as amended. If an active EIP does not define the queried topic and every EIP
  listed before it is silent on the pair, \<open>param\<close> throws \<open>TopicNotDefined\<close> instead of
  skipping that EIP. The EIP layer yields to the hardfork timeline when every active
  EIP is silent on the pair, and only then: otherwise the result does not depend on
  the hardfork files at all.
\<close>

theorem param_topic_missing_in_EIP:
  "(\<forall>pre e post d.
      c_eips c = pre @ e # post \<and> (\<forall>x\<in>set pre. eip_silent ds topic pname x) \<and>
      EIPs ds e = Some d \<and> eip_topics d topic = None \<longrightarrow>
      param ds c topic pname = Inl (TopicNotDefined topic)) \<and>
   ((\<forall>x\<in>set (c_eips c). eip_silent ds topic pname x) \<longrightarrow>
      param ds c topic pname = paramByHardfork ds c topic pname (c_hardfork c)) \<and>
   (\<not> (\<forall>x\<in>set (c_eips c). eip_silent ds topic pname x) \<longrightarrow>
      (\<forall>hc. param (ds\<lparr>HARDFORK_CHANGES := hc\<rparr>) c topic pname = param ds c topic pname))"
proof (intro conjI allI impI)
  fix pre e post d
  assume a: "c_eips c = pre @ e # post \<and> (\<forall>x\<in>set pre. eip_silent ds topic pname x) \<and>
      EIPs ds e = Some d \<and> eip_topics d topic = None"
  then have "\<not> eip_silent ds topic pname e"
    by (simp add: eip_silent_def eip_has_topic_def)
  with a have "param ds c topic pname = paramByEIP ds topic pname e"
    by (simp add: param_def param_loop_first)
  with a show "param ds c topic pname = Inl (TopicNotDefined topic)"
    by (simp add: paramByEIP_no_topic)
next
  assume "\<forall>x\<in>set (c_eips c). eip_silent ds topic pname x"
  then show "param ds c topic pname = paramByHardfork ds c topic pname (c_hardfork c)"
    by (simp add: param_def param_loop_all_silent)
next
  fix hc
  let ?ds = "ds\<lparr>HARDFORK_CHANGES := hc\<rparr>"
  assume "\<not> (\<forall>x\<in>set (c_eips c). eip_silent ds topic pname x)"
  then have "\<exists>x\<in>set (c_eips c). \<not> eip_silent ds topic pname x" by simp
  then obtain pre e post where sp: "c_eips c = pre @ e # post"
      and e: "\<not> eip_silent ds topic pname e"
      and pre: "\<forall>x\<in>set pre. \<not> \<not> eip_silent ds topic pname x"
    using split_list_first_prop [of "c_eips c" "\<lambda>x. \<not> eip_silent ds topic pname x"] by blast
  have same: "eip_silent ?ds topic pname x = eip_silent ds topic pname x" for x
    by (simp add: paramByEIP_silent [symmetric] paramByEIP_timeline_free)
  have "param ds c topic pname = paramByEIP ds topic pname e"
    using pre e by (simp add: param_def sp param_loop_first)
  moreover have "param ?ds c topic pname = paramByEIP ?ds topic pname e"
    using pre e by (simp add: param_def sp param_loop_first same)
  ultimately show "param ?ds c topic pname = param ds c topic pname"
    by (simp add: paramByEIP_timeline_free)
qed

theorem param_topic_missing_in_EIP_witness:
  "c_eips (mainnet\<lparr>c_eips := [2200, 2315, 2537]\<rparr>) = [2200] @ 2315 # [2537] \<and>
   eip_silent example_dataset ''gasPrices'' ''sstoreSet'' 2200 \<and>
   EIPs example_dataset 2315 = Some \<lparr>minimumHardfork = ''istanbul'', eip_topics = Map.empty\<rparr> \<and>
   param example_dataset (mainnet\<lparr>c_eips := [2200, 2315, 2537]\<rparr>) ''gasPrices'' ''sstoreSet''
     = Inl (TopicNotDefined ''gasPrices'')"
proof -
  let ?c = "mainnet\<lparr>c_eips := [2200, 2315, 2537]\<rparr>"
  let ?d = "\<lparr>minimumHardfork = ''istanbul'', eip_topics = (Map.empty :: int topics)\<rparr>"
  have e: "c_eips ?c = [2200] @ 2315 # [2537]" by simp
  have s: "eip_silent example_dataset ''gasPrices'' ''sstoreSet'' 2200"
    by (simp add: example_defs eip_silent_def eip_has_topic_def eip_defines_def)
  have s': "\<forall>x\<in>set [2200]. eip_silent example_dataset ''gasPrices'' ''sstoreSet'' x"
    using s by simp
  have d: "EIPs example_dataset 2315 = Some ?d"
    by (simp add: example_defs)
  have n: "eip_topics ?d ''gasPrices'' = None" by simp
  have "param example_dataset ?c ''gasPrices'' ''sstoreSet'' = Inl (TopicNotDefined ''gasPrices'')"
    using param_topic_missing_in_EIP [of ?c example_dataset "''gasPrices''" "''sstoreSet''"]
      e s' d n by blast
  with e s d show ?thesis by simp
qed

text \<open>
  The claim as stated, for any active EIP without the topic, fails when an EIP
  listed before it defines the pair: with EIP 2537 first, \<open>param\<close> returns \<open>500\<close> and never
  reads EIP 2315.
\<close>

theorem param_topic_missing_counterexample:
  "2315 \<in> set (c_eips (mainnet\<lparr>c_eips := [2537, 2315]\<rparr>)) \<and>
   \<not> eip_has_topic example_dataset ''gasPrices'' 2315 \<and>
   param example_dataset (mainnet\<lparr>c_eips := [2537, 2315]\<rparr>) ''gasPrices'' ''sstoreSet''
     = Inr (Some 500)"
  by (simp add: example_defs eip_has_topic_def param_def paramByEIP_def)

section \<open>Setting the active EIPs: all or nothing\<close>

lemma setEIPs_loop_None:
  "setEIPs_loop ds c l = None \<longleftrightarrow> (\<forall>e\<in>set l. eip_validates ds c e)"
  by (induction l) (auto simp: eip_validates_def gteHardfork_pos split: option.splits)

lemma setEIPs_loop_Some:
  "setEIPs_loop ds c l = Some err \<Longrightarrow>
   \<exists>e\<in>set l.
     (EIPs ds e = None \<and> err = EIPNotSupported e) \<or>
     (\<exists>d. EIPs ds e = Some d \<and>
          timeline_pos (hardforks c) (c_hardfork c) < timeline_pos (hardforks c) (minimumHardfork d) \<and>
          err = EIPCannotBeActivated e)"
  by (induction l) (auto simp: gteHardfork_pos split: option.splits if_splits)

text \<open>
  C4. If some EIP of the list does not validate (it is absent from the dataset, or the
  current hardfork is below its \<open>minimumHardfork\<close> in timeline order), \<open>setEIPs\<close> fails
  with \<open>EIPNotSupported\<close> or \<open>EIPCannotBeActivated\<close> for such an EIP and the Context,
  its active EIPs included, is what it was before the call. If every EIP validates,
  the call succeeds and the list becomes the active EIPs.
\<close>

theorem setEIPs_all_or_nothing:
  "((\<exists>e\<in>set l. \<not> eip_validates ds c e) \<longrightarrow>
      snd (setEIPs ds c (Some l)) = c \<and>
      eips (snd (setEIPs ds c (Some l))) = eips c \<and>
      (\<exists>e\<in>set l.
         (EIPs ds e = None \<and> fst (setEIPs ds c (Some l)) = Inl (EIPNotSupported e)) \<or>
         (\<exists>d. EIPs ds e = Some d \<and>
              timeline_pos (hardforks c) (c_hardfork c)
                < timeline_pos (hardforks c) (minimumHardfork d) \<and>
              fst (setEIPs ds c (Some l)) = Inl (EIPCannotBeActivated e)))) \<and>
   ((\<forall>e\<in>set l. eip_validates ds c e) \<longrightarrow>
      setEIPs ds c (Some l) = (Inr (), c\<lparr>c_eips := l\<rparr>))"
proof (intro conjI impI)
  assume "\<exists>e\<in>set l. \<not> eip_validates ds c e"
  then have "setEIPs_loop ds c l \<noteq> None"
    by (simp add: setEIPs_loop_None)
  then obtain err where err: "setEIPs_loop ds c l = Some err" by blast
  then have r: "setEIPs ds c (Some l) = (Inl err, c)"
    by (simp add: setEIPs_def)
  from err r show "snd (setEIPs ds c (Some l)) = c" by simp
  from err r show "eips (snd (setEIPs ds c (Some l))) = eips c" by simp
  from setEIPs_loop_Some [OF err] r
  show "\<exists>e\<in>set l.
         (EIPs ds e = None \<and> fst (setEIPs ds c (Some l)) = Inl (EIPNotSupported e)) \<or>
         (\<exists>d. EIPs ds e = Some d \<and>
              timeline_pos (hardforks c) (c_hardfork c)
                < timeline_pos (hardforks c) (minimumHardfork d) \<and>
              fst (setEIPs ds c (Some l)) = Inl (EIPCannotBeActivated e))"
    by simp
next
  assume "\<forall>e\<in>set l. eip_validates ds c e"
  then have "setEIPs_loop ds c l = None"
    by (simp add: setEIPs_loop_None)
  then show "setEIPs ds c (Some l) = (Inr (), c\<lparr>c_eips := l\<rparr>)"
    by (simp add: setEIPs_def)
qed

theorem setEIPs_all_or_nothing_witness:
  "\<not> eip_validates example_dataset mainnet_2200 2315 \<and>
   setEIPs example_dataset mainnet_2200 (Some [2537, 2315])
     = (Inl (EIPCannotBeActivated 2315), mainnet_2200) \<and>
   \<not> eip_validates example_dataset mainnet_2200 9999 \<and>
   setEIPs example_dataset mainnet_2200 (Some [2537, 9999])
     = (Inl (EIPNotSupported 9999), mainnet_2200) \<and>
   eip_validates example_dataset mainnet_2200 2537 \<and>
   eip_validates example_dataset mainnet_2200 2200 \<and>
   setEIPs example_dataset mainnet_2200 (Some [2537, 2200])
     = (Inr (), mainnet_2200\<lparr>c_eips := [2537, 2200]\<rparr>) \<and>
   eips mainnet_2200 = [2200]"
proof -
  let ?c = "mainnet_2200"
  have v1: "\<not> eip_validates example_dataset ?c 2315"
    by (simp add: mainnet_2200_def example_defs eip_validates_def)
  have v2: "\<not> eip_validates example_dataset ?c 9999"
    by (simp add: mainnet_2200_def example_defs eip_validates_def)
  have v3: "eip_validates example_dataset ?c 2537"
    by (simp add: mainnet_2200_def example_defs eip_validates_def)
  have v4: "eip_validates example_dataset ?c 2200"
    by (simp add: mainnet_2200_def example_defs eip_validates_def)
  have "snd (setEIPs example_dataset ?c (Some [2537, 2315])) = ?c"
    using setEIPs_all_or_nothing [of "[2537, 2315]" example_dataset ?c] v1 by simp
  moreover have "fst (setEIPs example_dataset ?c (Some [2537, 2315]))
      = Inl (EIPCannotBeActivated 2315)"
    by (simp add: mainnet_2200_def example_defs setEIPs_def gteHardfork_pos)
  ultimately have r1: "setEIPs example_dataset ?c (Some [2537, 2315])
      = (Inl (EIPCannotBeActivated 2315), ?c)"
    by (simp add: prod_eq_iff)
  have "snd (setEIPs example_dataset ?c (Some [2537, 9999])) = ?c"
    using setEIPs_all_or_nothing [of "[2537, 9999]" example_dataset ?c] v2 by simp
  moreover have "fst (setEIPs example_dataset ?c (Some [2537, 9999]))
      = Inl (EIPNotSupported 9999)"
    by (simp add: mainnet_2200_def example_defs setEIPs_def gteHardfork_pos)
  ultimately have r2: "setEIPs example_dataset ?c (Some [2537, 9999])
      = (Inl (EIPNotSupported 9999), ?c)"
    by (simp add: prod_eq_iff)
  have r3: "setEIPs example_dataset ?c (Some [2537, 2200])
      = (Inr (), ?c\<lparr>c_eips := [2537, 2200]\<rparr>)"
    using setEIPs_all_or_nothing [of "[2537, 2200]" example_dataset ?c] v3 v4 by simp
  have e: "eips ?c = [2200]"
    by (simp add: mainnet_2200_def example_defs)
  from v1 v2 v3 v4 r1 r2 r3 e show ?thesis by simp
qed

section \<open>Next hardfork block\<close>

lemma nonnull_blocks_Cons:
  "nonnull_blocks (hf # hfs) =
     (case hf_block hf of None \<Rightarrow> nonnull_blocks hfs | Some b \<Rightarrow> b # nonnull_blocks hfs)"
  by (simp add: nonnull_blocks_def map_filter_simps split: option.splits)

lemma nonnull_blocks_Nil: "nonnull_blocks [] = []"
  by (simp add: nonnull_blocks_def map_filter_simps)

lemma set_nonnull_blocks:
  "set (nonnull_blocks hfs) = {b. \<exists>hf\<in>set hfs. hf_block hf = Some b}"
  by (induction hfs) (auto simp: nonnull_blocks_Nil nonnull_blocks_Cons split: option.splits)

lemma js_gt_simps:
  "js_gt None hfBlock = False"
  "js_gt (Some x) hfBlock = (js_number hfBlock < x)"
  by (simp_all add: js_gt_def js_number_def)

lemma reduce_first_greater:
  "foldl (\<lambda>acc hf. if js_gt (hf_block hf) hfBlock \<and> acc = None then hf_block hf else acc) acc hfs =
     (case acc of
        Some a \<Rightarrow> Some a
      | None \<Rightarrow> find (\<lambda>x. js_number hfBlock < x) (nonnull_blocks hfs))"
proof (induction hfs arbitrary: acc)
  case Nil
  then show ?case by (simp add: nonnull_blocks_Nil split: option.splits)
next
  case (Cons hf hfs)
  show ?case
    by (cases "hf_block hf"; cases acc)
       (simp_all add: Cons.IH nonnull_blocks_Cons js_gt_simps)
qed

lemma find_sorted_Min:
  "sorted xs \<Longrightarrow>
   find (\<lambda>x. (t::nat) < x) xs =
     (if {x \<in> set xs. t < x} = {} then None else Some (Min {x \<in> set xs. t < x}))"
proof (induction xs)
  case Nil
  then show ?case by simp
next
  case (Cons x xs)
  show ?case
  proof (cases "t < x")
    case True
    have "Min {y \<in> set (x # xs). t < y} = x"
    proof (rule Min_eqI)
      show "finite {y \<in> set (x # xs). t < y}" by simp
      show "x \<in> {y \<in> set (x # xs). t < y}" using True by simp
      fix y assume "y \<in> {y \<in> set (x # xs). t < y}"
      then show "x \<le> y" using Cons.prems by auto
    qed
    moreover have "{y \<in> set (x # xs). t < y} \<noteq> {}" using True by auto
    ultimately show ?thesis using True by simp
  next
    case False
    then have "{y \<in> set (x # xs). t < y} = {y \<in> set xs. t < y}" by auto
    moreover have "sorted xs" using Cons.prems by simp
    ultimately show ?thesis using False Cons.IH by simp
  qed
qed

lemma nextHardforkBlock_eq:
  assumes "h \<noteq> []" and "timeline_record c h = Some r"
  shows "nextHardforkBlock c (Some h) =
           Inr (find (\<lambda>x. js_number (hf_block r) < x) (nonnull_blocks (hardforks c)))"
  using assms
  by (simp add: nextHardforkBlock_def hardforkBlock_def chooseHardfork_unchecked
      getHardfork_record reduce_first_greater)

text \<open>
  C6, as amended. For a hardfork name of the timeline whose block is not \<open>null\<close>,
  \<open>nextHardforkBlock\<close> returns the first non-null block in timeline order that is
  strictly greater than the name's block, \<open>null\<close> if there is none. When the non-null
  blocks of the table are in ascending order, this is the smallest such block. On the
  scenario's table, \<open>nextHardforkBlock("homestead")\<close> is \<open>4370000\<close>.
\<close>

theorem nextHardforkBlock_first_greater:
  assumes "h \<noteq> []" and "timeline_record c h = Some r" and "hf_block r = Some b"
  shows "nextHardforkBlock c (Some h) =
           Inr (find (\<lambda>x. b < x) (nonnull_blocks (hardforks c))) \<and>
         (sorted (nonnull_blocks (hardforks c)) \<longrightarrow>
            nextHardforkBlock c (Some h) =
              Inr (if {x \<in> set (nonnull_blocks (hardforks c)). b < x} = {} then None
                   else Some (Min {x \<in> set (nonnull_blocks (hardforks c)). b < x})))"
proof -
  have eq: "nextHardforkBlock c (Some h) =
      Inr (find (\<lambda>x. b < x) (nonnull_blocks (hardforks c)))"
    using nextHardforkBlock_eq [OF assms(1,2)] assms(3) by (simp add: js_number_def)
  then show ?thesis
    by (simp add: find_sorted_Min)
qed

theorem nextHardforkBlock_first_greater_witness:
  "timeline_record mainnet ''homestead'' = Some (mainnet_table ! 1) \<and>
   hf_block (mainnet_table ! 1) = Some 1150000 \<and>
   sorted (nonnull_blocks (hardforks mainnet)) \<and>
   nextHardforkBlock mainnet (Some ''homestead'') = Inr (Some 4370000)"
proof -
  have n: "''homestead'' \<noteq> []" by simp
  have r: "timeline_record mainnet ''homestead'' = Some (mainnet_table ! 1)"
    by (simp add: example_defs timeline_record_def)
  have b: "hf_block (mainnet_table ! 1) = Some 1150000"
    by (simp add: example_defs)
  have s: "sorted (nonnull_blocks (hardforks mainnet))"
    by (simp add: example_defs nonnull_blocks_Cons nonnull_blocks_Nil)
  have "nextHardforkBlock mainnet (Some ''homestead'') =
      Inr (find (\<lambda>x. 1150000 < x) (nonnull_blocks (hardforks mainnet)))"
    using nextHardforkBlock_first_greater [OF n r b] by blast
  then have "nextHardforkBlock mainnet (Some ''homestead'') = Inr (Some 4370000)"
    by (simp add: example_defs nonnull_blocks_Cons nonnull_blocks_Nil)
  with r b s show ?thesis by simp
qed

text \<open>
  The claim as stated, the smallest block, fails on a table whose blocks are not in
  ascending order: after \<open>chainstart\<close> at \<open>0\<close> the result is \<open>10\<close>, though the table has
  a record at block \<open>5\<close>.
\<close>

theorem nextHardforkBlock_smallest_counterexample:
  "timeline_record unsorted_chain ''chainstart'' =
     Some \<lparr>hf_name = ''chainstart'', hf_block = Some 0, hf_forkHash = None\<rparr> \<and>
   nextHardforkBlock unsorted_chain (Some ''chainstart'') = Inr (Some 10) \<and>
   5 \<in> set (nonnull_blocks (hardforks unsorted_chain)) \<and> (0::nat) < 5 \<and> (5::nat) < 10"
  by (simp add: unsorted_chain_def example_defs timeline_record_def nextHardforkBlock_def
      hardforkBlock_def chooseHardfork_def getHardfork_def js_gt_def js_number_def
      nonnull_blocks_Cons nonnull_blocks_Nil)

text \<open>
  For a name whose block is \<open>null\<close> the comparison reads \<open>null\<close> as \<open>0\<close>: on the
  scenario's table the unscheduled \<open>istanbul\<close> gets the block of \<open>homestead\<close>.
\<close>

lemma nextHardforkBlock_null_block_example:
  "nextHardforkBlock mainnet (Some ''istanbul'') = Inr (Some 1150000)"
  by (simp add: example_defs nextHardforkBlock_def
      hardforkBlock_def chooseHardfork_def getHardfork_def js_gt_def js_number_def)

section \<open>Fork hash: the computed value\<close>

subsection \<open>Hexadecimal digits and bytes\<close>

lemma hexval_hexDigit: "d < 16 \<Longrightarrow> hexval (hexDigit d) = Some d"
proof -
  assume "d < 16"
  then have "d = 0 \<or> d = 1 \<or> d = 2 \<or> d = 3 \<or> d = 4 \<or> d = 5 \<or> d = 6 \<or> d = 7 \<or>
      d = 8 \<or> d = 9 \<or> d = 10 \<or> d = 11 \<or> d = 12 \<or> d = 13 \<or> d = 14 \<or> d = 15"
    by arith
  then show ?thesis
    by (elim disjE) (simp_all add: hexval_def hexDigit_def)
qed

lemma hexDigit_lowercase: "d < 16 \<Longrightarrow> hexDigit d \<in> set ''0123456789abcdef''"
  by (simp only: hexDigit_def) (rule nth_mem, simp)

lemma toString16_lowercase: "set (toString16 n) \<subseteq> set ''0123456789abcdef''"
proof (induction n rule: toString16.induct)
  case (1 n)
  show ?case
  proof (cases "n < 16")
    case True
    then show ?thesis
      using hexDigit_lowercase [of n] by (simp add: toString16.simps [of n])
  next
    case False
    have "n mod 16 < 16" by simp
    then have "hexDigit (n mod 16) \<in> set ''0123456789abcdef''"
      by (rule hexDigit_lowercase)
    with False 1 show ?thesis
      by (simp add: toString16.simps [of n])
  qed
qed

lemma hex_value_snoc:
  "hex_value (s @ [ch]) = 16 * hex_value s + (case hexval ch of None \<Rightarrow> 0 | Some d \<Rightarrow> d)"
  by (simp add: hex_value_def)

lemma hex_value_toString16: "hex_value (toString16 n) = n"
proof (induction n rule: toString16.induct)
  case (1 n)
  show ?case
  proof (cases "n < 16")
    case True
    then show ?thesis
      by (simp add: toString16.simps [of n] hex_value_def hexval_hexDigit)
  next
    case False
    then have "hex_value (toString16 (n div 16)) = n div 16"
      by (rule 1)
    with False show ?thesis
      by (simp add: toString16.simps [of n] hex_value_snoc hexval_hexDigit)
  qed
qed

lemma fixhex_zero: "fixhex k 0 = replicate k (CHR ''0'')"
  by (induction k) (simp_all add: hexDigit_def replicate_append_same)

lemma length_fixhex: "length (fixhex k n) = k"
  by (induction k arbitrary: n) simp_all

lemma fixhex_valid: "c \<in> set (fixhex k n) \<Longrightarrow> hexval c \<noteq> None"
  by (induction k arbitrary: n) (auto simp: hexval_hexDigit)

lemma padStart_toString16:
  "n < 16 ^ Suc k \<Longrightarrow> padStart (Suc k) (CHR ''0'') (toString16 n) = fixhex (Suc k) n"
proof (induction k arbitrary: n)
  case 0
  then show ?case
    by (simp add: toString16.simps [of n] padStart_def)
next
  case (Suc k)
  show ?case
  proof (cases "n < 16")
    case True
    then show ?thesis
      by (simp add: toString16.simps [of n] padStart_def fixhex_zero replicate_append_same)
  next
    case False
    have "n div 16 < 16 ^ Suc k"
      using Suc.prems by (simp add: less_mult_imp_div_less)
    then have ih: "padStart (Suc k) (CHR ''0'') (toString16 (n div 16)) = fixhex (Suc k) (n div 16)"
      by (rule Suc.IH)
    have "padStart (Suc (Suc k)) (CHR ''0'') (toString16 n) =
        padStart (Suc k) (CHR ''0'') (toString16 (n div 16)) @ [hexDigit (n mod 16)]"
      using False by (simp add: toString16.simps [of n] padStart_def)
    with ih show ?thesis by simp
  qed
qed

lemma Buffer_from_hex_append:
  "even (length xs) \<Longrightarrow> \<forall>c\<in>set xs. hexval c \<noteq> None \<Longrightarrow>
   Buffer_from_hex (xs @ ys) = Buffer_from_hex xs @ Buffer_from_hex ys"
  by (induction xs rule: Buffer_from_hex.induct) (auto split: option.splits)

lemma byte_of_nibbles:
  "(16 * of_nat (n div 16 mod 16) + of_nat (n mod 16) :: byte) = of_nat n"
proof -
  have "16 * (n div 16 mod 16) + n mod 16 = n mod 256"
    using mod_mult2_eq [of n 16 16] by simp
  moreover have "(of_nat (n mod 256) :: byte) = of_nat n"
    by (simp add: word_eq_iff_unsigned [where ?'a = nat] unsigned_of_nat take_bit_eq_mod)
  moreover have "(16 * of_nat (n div 16 mod 16) + of_nat (n mod 16) :: byte) =
      of_nat (16 * (n div 16 mod 16) + n mod 16)"
    by simp
  ultimately show ?thesis by simp
qed

lemma Buffer_from_hex_fixhex: "Buffer_from_hex (fixhex (2 * k) n) = be_bytes k n"
proof (induction k arbitrary: n)
  case 0
  then show ?case by simp
next
  case (Suc k)
  have v: "\<forall>c\<in>set (fixhex (2 * k) (n div 16 div 16)). hexval c \<noteq> None"
    by (simp add: fixhex_valid)
  have "fixhex (2 * Suc k) n =
      fixhex (2 * k) (n div 16 div 16) @ [hexDigit (n div 16 mod 16), hexDigit (n mod 16)]"
    by simp
  then have "Buffer_from_hex (fixhex (2 * Suc k) n) =
      Buffer_from_hex (fixhex (2 * k) (n div 16 div 16)) @
      Buffer_from_hex [hexDigit (n div 16 mod 16), hexDigit (n mod 16)]"
    using v by (simp add: Buffer_from_hex_append length_fixhex)
  also have "n div 16 div 16 = n div 256"
    by (simp add: div_mult2_eq [symmetric])
  finally show ?case
    by (simp add: Suc.IH hexval_hexDigit byte_of_nibbles)
qed

lemma be_bytes_8: "be_bytes 8 n = be8 n"
proof -
  have h: "be_bytes (Suc (Suc (Suc (Suc (Suc (Suc (Suc (Suc 0)))))))) n = be8 n"
    by (simp add: be8_def div_mult2_eq [symmetric])
  have e: "(8::nat) = Suc (Suc (Suc (Suc (Suc (Suc (Suc (Suc 0)))))))"
    by simp
  show ?thesis
    by (subst e) (rule h)
qed

lemma block_buffer_be8:
  assumes "n < 2 ^ 64"
  shows "Buffer_from_hex (padStart 16 (CHR ''0'') (toString16 n)) = be8 n"
proof -
  have "n < 16 ^ Suc 15" using assms by simp
  then have "padStart (Suc 15) (CHR ''0'') (toString16 n) = fixhex (Suc 15) n"
    by (rule padStart_toString16)
  then have "padStart 16 (CHR ''0'') (toString16 n) = fixhex (2 * 8) n"
    by simp
  then show ?thesis
    by (simp only: Buffer_from_hex_fixhex be_bytes_8)
qed

lemma urshift0_crc32Buffer: "urshift0 (crc32Buffer bs) = unat (crc32 bs)"
proof -
  have "sint (crc32 bs) mod 2 ^ 32 = uint (crc32 bs)"
    by (simp add: uint_sint take_bit_eq_mod)
  then show ?thesis
    by (simp add: urshift0_def crc32Buffer_def)
qed

subsection \<open>The loop over the table\<close>

lemma upto_target_Cons:
  "upto_target h (hf # hfs) = (if hf_name hf = h then [hf] else hf # upto_target h hfs)"
  by (simp add: upto_target_def)

lemma upto_target_Nil: "upto_target h [] = []"
  by (simp add: upto_target_def)

lemma find_split:
  "find P xs = Some r \<Longrightarrow> \<exists>pre post. xs = pre @ r # post \<and> P r \<and> (\<forall>x\<in>set pre. \<not> P x)"
proof (induction xs)
  case Nil
  then show ?case by simp
next
  case (Cons x xs)
  show ?case
  proof (cases "P x")
    case True
    with Cons.prems have "x # xs = [] @ r # xs \<and> P r \<and> (\<forall>y\<in>set []. \<not> P y)" by simp
    then show ?thesis by blast
  next
    case False
    with Cons obtain pre post where "xs = pre @ r # post" "P r" "\<forall>y\<in>set pre. \<not> P y"
      by auto
    with False have "x # xs = (x # pre) @ r # post \<and> P r \<and> (\<forall>y\<in>set (x # pre). \<not> P y)"
      by simp
    then show ?thesis by blast
  qed
qed

lemma upto_target_record:
  assumes "timeline_record c h = Some r"
  shows "\<exists>pre post. hardforks c = pre @ r # post \<and> hf_name r = h \<and>
           h \<notin> hf_name ` set pre \<and> upto_target h (hardforks c) = pre @ [r]"
proof -
  from find_split [OF assms [unfolded timeline_record_def]]
  obtain pre post where sp: "hardforks c = pre @ r # post" and r: "hf_name r = h"
    and pre: "\<forall>x\<in>set pre. hf_name x \<noteq> h" by blast
  have "upto_target h (pre @ r # post) = pre @ [r]"
    using r pre by (simp add: upto_target_def takeWhile_append2 dropWhile_append2)
  with sp r pre show ?thesis by auto
qed

lemma calcForkHash_loop_eq:
  "calcForkHash_loop h buf (prev_block q) hfs =
     buf @ concat (map hfBlockBuffer
       (concat (map hash_block (zip (upto_target h hfs) (q # map Some (upto_target h hfs))))))"
proof (induction hfs arbitrary: buf q)
  case Nil
  then show ?case by (simp add: upto_target_Nil)
next
  case (Cons hf hfs)
  have step: "(case hf_block hf of
           None \<Rightarrow> buf
         | Some block \<Rightarrow>
             if block \<noteq> 0 \<and> Some block \<noteq> prev_block q
             then buf @ Buffer_from_hex (padStart 16 (CHR ''0'') (toString16 block))
             else buf) = buf @ concat (map hfBlockBuffer (hash_block (hf, q)))"
    by (cases "hf_block hf"; cases q) (auto simp: hash_block_def prev_block_def hfBlockBuffer_def)
  have next_prev: "hf_block hf = prev_block (Some hf)"
    by (simp add: prev_block_def)
  show ?case
  proof (cases "hf_name hf = h")
    case True
    then show ?thesis
      by (simp add: upto_target_Cons step Let_def)
  next
    case False
    have "calcForkHash_loop h buf (prev_block q) (hf # hfs) =
        calcForkHash_loop h (buf @ concat (map hfBlockBuffer (hash_block (hf, q))))
          (prev_block (Some hf)) hfs"
      using False by (simp add: step Let_def next_prev [symmetric])
    then show ?thesis
      using False by (simp add: Cons.IH upto_target_Cons)
  qed
qed

lemma calcForkHash_loop_start:
  "calcForkHash_loop h [] (Some 0) hfs =
     concat (map hfBlockBuffer (hash_blocks (upto_target h hfs)))"
proof -
  have "calcForkHash_loop h [] (prev_block None) hfs =
     concat (map hfBlockBuffer (hash_blocks (upto_target h hfs)))"
    by (simp only: calcForkHash_loop_eq hash_blocks_def with_previous_def append_Nil)
  then show ?thesis by (simp add: prev_block_def)
qed

lemma hash_blocks_subset:
  "b \<in> set (hash_blocks hfs) \<Longrightarrow> \<exists>hf\<in>set hfs. hf_block hf = Some b"
proof -
  assume "b \<in> set (hash_blocks hfs)"
  then obtain x y where mem: "(x, y) \<in> set (zip hfs (None # map Some hfs))"
    and b: "b \<in> set (hash_block (x, y))"
    by (auto simp: hash_blocks_def with_previous_def)
  from mem have "x \<in> set hfs"
    by (rule set_zip_leftD)
  moreover from b have "hf_block x = Some b"
    by (auto simp: hash_block_def split: option.splits if_splits)
  ultimately show ?thesis by blast
qed

subsection \<open>Evaluation on the main network\<close>

lemma mainnet_genesis_decoded:
  "Buffer_from_hex (drop 2 (hash mainnet_genesis)) = mainnet_genesis_bytes"
  by (simp add: mainnet_genesis_def mainnet_genesis_bytes_def hexval_def)

lemma crc32_mainnet_genesis: "crc32 mainnet_genesis_bytes = 0xfc64ec04"
  by (simp add: mainnet_genesis_bytes_def crc32_def crc_update_def crc_shift_def)

lemma crc32_mainnet_homestead:
  "crc32 (mainnet_genesis_bytes @ [0, 0, 0, 0, 0, 0x11, 0x8c, 0x30]) = 0x97c2c34c"
  by (simp add: mainnet_genesis_bytes_def crc32_def crc_update_def crc_shift_def)

lemma toString16_fc64ec04: "toString16 0xfc64ec04 = ''fc64ec04''"
  by (simp add: toString16.simps hexDigit_def)

lemma toString16_97c2c34c: "toString16 0x97c2c34c = ''97c2c34c''"
  by (simp add: toString16.simps hexDigit_def)

lemma be8_1150000: "be8 1150000 = [0, 0, 0, 0, 0, 0x11, 0x8c, 0x30]"
  by (simp add: be8_def)

text \<open>
  C2. For a hardfork name of the timeline (a non-empty string) whose record has a
  non-null block and no \<open>forkHash\<close> field, \<open>forkHash\<close> is \<open>0x\<close> followed by the lowercase
  hexadecimal digits of the CRC-32 checksum, read as an unsigned 32-bit integer, of the
  genesis hash bytes followed by the 8-byte big-endian block numbers of the records up
  to and including the target whose block is neither \<open>0\<close> nor \<open>null\<close> and differs from
  the block value of the immediately preceding record. Block numbers are below
  \<open>2^64\<close>, the numbers that have an 8-byte encoding.
\<close>

theorem forkHash_computed:
  assumes "h \<noteq> []" and "timeline_record c h = Some r"
    and "hf_block r \<noteq> None" and "hf_forkHash r = None"
    and "\<forall>hf\<in>set (upto_target h (hardforks c)). \<forall>b. hf_block hf = Some b \<longrightarrow> b < 2 ^ 64"
  shows "forkHash c (Some h) =
           Inr (''0x'' @ toString16 (unat (crc32
             (Buffer_from_hex (drop 2 (hash (genesis c))) @
              concat (map be8 (hash_blocks (upto_target h (hardforks c))))))))"
proof -
  have "forkHash c (Some h) = Inr (calcForkHash c h)"
    using assms(1-4)
    by (auto simp: forkHash_def chooseHardfork_unchecked getHardfork_record)
  moreover have "map hfBlockBuffer (hash_blocks (upto_target h (hardforks c))) =
      map be8 (hash_blocks (upto_target h (hardforks c)))"
  proof (rule map_cong [OF refl])
    fix b assume "b \<in> set (hash_blocks (upto_target h (hardforks c)))"
    then have "b < 2 ^ 64"
      using assms(5) hash_blocks_subset by blast
    then show "hfBlockBuffer b = be8 b"
      by (simp add: hfBlockBuffer_def block_buffer_be8)
  qed
  ultimately show ?thesis
    by (simp add: calcForkHash_def calcForkHash_loop_start urshift0_crc32Buffer Let_def)
qed

theorem forkHash_computed_witness:
  "timeline_record mainnet ''homestead'' = Some (mainnet_table ! 1) \<and>
   hf_block (mainnet_table ! 1) \<noteq> None \<and> hf_forkHash (mainnet_table ! 1) = None \<and>
   hash_blocks (upto_target ''homestead'' (hardforks mainnet)) = [1150000] \<and>
   forkHash mainnet (Some ''homestead'') = Inr ''0x97c2c34c''"
proof -
  have n: "''homestead'' \<noteq> []" by simp
  have r: "timeline_record mainnet ''homestead'' = Some (mainnet_table ! 1)"
    by (simp add: example_defs timeline_record_def)
  have b: "hf_block (mainnet_table ! 1) \<noteq> None"
    by (simp add: example_defs)
  have f: "hf_forkHash (mainnet_table ! 1) = None"
    by (simp add: example_defs)
  have u: "upto_target ''homestead'' (hardforks mainnet) = take 2 mainnet_table"
    by (simp add: example_defs upto_target_def)
  have bound: "\<forall>hf\<in>set (upto_target ''homestead'' (hardforks mainnet)).
      \<forall>b. hf_block hf = Some b \<longrightarrow> b < 2 ^ 64"
    by (simp add: u) (simp add: example_defs)
  have hb: "hash_blocks (upto_target ''homestead'' (hardforks mainnet)) = [1150000]"
    by (simp add: u) (simp add: example_defs hash_blocks_def with_previous_def hash_block_def)
  have g: "Buffer_from_hex (drop 2 (hash (genesis mainnet))) = mainnet_genesis_bytes"
    using mainnet_genesis_decoded by (simp add: mainnet_def genesis_def)
  have "forkHash mainnet (Some ''homestead'') =
      Inr (''0x'' @ toString16 (unat (crc32 (mainnet_genesis_bytes @ concat (map be8 [1150000])))))"
    using forkHash_computed [OF n r b f bound] by (simp only: hb g)
  then have "forkHash mainnet (Some ''homestead'') = Inr ''0x97c2c34c''"
    by (simp add: be8_1150000 crc32_mainnet_homestead toString16_97c2c34c)
  with r b f hb show ?thesis by simp
qed

text \<open>
  The scenario of the specification: the fork hash of \<open>chainstart\<close> is the checksum
  of the genesis bytes alone.
\<close>

lemma forkHash_chainstart_example:
  "forkHash mainnet (Some ''chainstart'') = Inr ''0xfc64ec04''"
proof -
  have "calcForkHash_loop ''chainstart'' [] (Some 0) (hardforks mainnet) = []"
    by (simp add: example_defs)
  moreover have "Buffer_from_hex (drop 2 (hash (genesis mainnet))) = mainnet_genesis_bytes"
    using mainnet_genesis_decoded by (simp add: mainnet_def genesis_def)
  ultimately have "calcForkHash mainnet ''chainstart'' = ''0xfc64ec04''"
    by (simp add: calcForkHash_def urshift0_crc32Buffer crc32_mainnet_genesis toString16_fc64ec04)
  then show ?thesis
    by (simp add: example_defs forkHash_def chooseHardfork_def getHardfork_def)
qed

section \<open>Fork hash: reverse lookup\<close>

lemma count_list_map:
  "count_list (map f xs) y = length (filter (\<lambda>x. f x = y) xs)"
  by (induction xs) simp_all

lemma filter_singleton:
  assumes "length (filter P xs) = 1" and "r \<in> set xs" and "P r"
  shows "filter P xs = [r]"
proof -
  from assms(1) obtain x where x: "filter P xs = [x]"
    by (cases "filter P xs") auto
  from assms(2,3) have "r \<in> set (filter P xs)" by simp
  with x show ?thesis by simp
qed

text \<open>
  C8, as amended. For a hardfork of the timeline whose record carries a precomputed
  \<open>forkHash\<close> field, if \<open>forkHash\<close> returns a hash that occurs exactly once among the
  \<open>forkHash\<close> fields of the table, \<open>hardforkForForkHash\<close> maps that hash back to the
  record of the hardfork.
\<close>

theorem forkHash_roundtrip:
  assumes "h \<noteq> []" and "timeline_record c h = Some r"
    and "hf_forkHash r \<noteq> None"
    and "forkHash c (Some h) = Inr fh"
    and "count_list (map hf_forkHash (hardforks c)) (Some fh) = 1"
  shows "hardforkForForkHash c fh = Some r"
proof -
  from assms(3) obtain x where x: "hf_forkHash r = Some x" by blast
  have "forkHash c (Some h) = (if hf_block r = None then Inl NoForkHash else Inr x)"
    using assms(1,2) x
    by (simp add: forkHash_def chooseHardfork_unchecked getHardfork_record)
  with assms(4) have fh: "hf_forkHash r = Some fh"
    using x by (auto split: if_splits)
  have "r \<in> set (hardforks c)"
    using assms(2) upto_target_record by fastforce
  moreover have "length (filter (\<lambda>hf. hf_forkHash hf = Some fh) (hardforks c)) = 1"
    using assms(5) by (simp add: count_list_map)
  ultimately have "filter (\<lambda>hf. hf_forkHash hf = Some fh) (hardforks c) = [r]"
    using fh by (intro filter_singleton) simp_all
  then show ?thesis
    by (simp add: hardforkForForkHash_def)
qed

theorem forkHash_roundtrip_witness:
  "timeline_record mainnet_precomputed ''homestead'' =
     Some \<lparr>hf_name = ''homestead'', hf_block = Some 1150000, hf_forkHash = Some ''0x97c2c34c''\<rparr> \<and>
   forkHash mainnet_precomputed (Some ''homestead'') = Inr ''0x97c2c34c'' \<and>
   count_list (map hf_forkHash (hardforks mainnet_precomputed)) (Some ''0x97c2c34c'') = 1 \<and>
   hardforkForForkHash mainnet_precomputed ''0x97c2c34c'' =
     Some \<lparr>hf_name = ''homestead'', hf_block = Some 1150000, hf_forkHash = Some ''0x97c2c34c''\<rparr>"
proof -
  let ?r = "\<lparr>hf_name = ''homestead'', hf_block = Some 1150000, hf_forkHash = Some ''0x97c2c34c''\<rparr>"
  have n: "''homestead'' \<noteq> []" by simp
  have r: "timeline_record mainnet_precomputed ''homestead'' = Some ?r"
    by (simp add: mainnet_precomputed_def example_defs timeline_record_def)
  have f: "hf_forkHash ?r \<noteq> None" by simp
  have h: "forkHash mainnet_precomputed (Some ''homestead'') = Inr ''0x97c2c34c''"
    by (simp add: mainnet_precomputed_def example_defs forkHash_def chooseHardfork_def
        getHardfork_def)
  have u: "count_list (map hf_forkHash (hardforks mainnet_precomputed)) (Some ''0x97c2c34c'') = 1"
    by (simp add: mainnet_precomputed_def example_defs)
  from forkHash_roundtrip [OF n r f h u] r h u show ?thesis by simp
qed

text \<open>
  The claim as stated also covers a hardfork whose hash is computed. Its record has no
  \<open>forkHash\<close> field, and \<open>hardforkForForkHash\<close> reads only the fields: when the computed
  hash occurs once among them, the record found is another one. Here \<open>chainstart\<close> has
  no field and \<open>homestead\<close>, at the same block, carries the hash.
\<close>

theorem forkHash_roundtrip_counterexample:
  "timeline_record custom_chain ''chainstart'' =
     Some \<lparr>hf_name = ''chainstart'', hf_block = Some 0, hf_forkHash = None\<rparr> \<and>
   forkHash custom_chain (Some ''chainstart'') = Inr ''0xfc64ec04'' \<and>
   count_list (map hf_forkHash (hardforks custom_chain)) (Some ''0xfc64ec04'') = 1 \<and>
   hardforkForForkHash custom_chain ''0xfc64ec04'' =
     Some \<lparr>hf_name = ''homestead'', hf_block = Some 0, hf_forkHash = Some ''0xfc64ec04''\<rparr> \<and>
   hardforkForForkHash custom_chain ''0xfc64ec04'' \<noteq> timeline_record custom_chain ''chainstart''"
proof -
  have r: "timeline_record custom_chain ''chainstart'' =
     Some \<lparr>hf_name = ''chainstart'', hf_block = Some 0, hf_forkHash = None\<rparr>"
    by (simp add: custom_chain_def example_defs timeline_record_def)
  have "calcForkHash_loop ''chainstart'' [] (Some 0) (hardforks custom_chain) = []"
    by (simp add: custom_chain_def example_defs)
  moreover have "Buffer_from_hex (drop 2 (hash (genesis custom_chain))) = mainnet_genesis_bytes"
    using mainnet_genesis_decoded by (simp add: custom_chain_def mainnet_def genesis_def)
  ultimately have "calcForkHash custom_chain ''chainstart'' = ''0xfc64ec04''"
    by (simp add: calcForkHash_def urshift0_crc32Buffer crc32_mainnet_genesis toString16_fc64ec04)
  then have h: "forkHash custom_chain (Some ''chainstart'') = Inr ''0xfc64ec04''"
    by (simp add: custom_chain_def example_defs forkHash_def chooseHardfork_def getHardfork_def)
  have u: "count_list (map hf_forkHash (hardforks custom_chain)) (Some ''0xfc64ec04'') = 1"
    by (simp add: custom_chain_def example_defs)
  have l: "hardforkForForkHash custom_chain ''0xfc64ec04'' =
     Some \<lparr>hf_name = ''homestead'', hf_block = Some 0, hf_forkHash = Some ''0xfc64ec04''\<rparr>"
    by (simp add: custom_chain_def example_defs hardforkForForkHash_def)
  from r h u l show ?thesis by simp
qed

end
